theory Spec2Isabelle
  imports Main "HOL-Library.Word"
begin

unbundle bit_operations_syntax

section \<open>Buffers and the crypto primitives the beacon codec calls\<close>

text \<open>
  A Node.js Buffer is a list of bytes. \<open>Buffer.slice(start, end)\<close> clamps both indices to
  the length of the buffer, so a slice past the end is shorter than asked for (the codec
  relies on that to detect truncated input).
\<close>

type_synonym byte = "8 word"
type_synonym buffer = "byte list"

definition slice_buffer :: "buffer \<Rightarrow> nat \<Rightarrow> nat \<Rightarrow> buffer" where
  "slice_buffer buf start stop = drop start (take stop buf)"

text \<open>
  A \<open>Crypto.ECDH\<close> object initialised with a key pair. \<open>computeSecret\<close> of the object is
  the primitive \<open>computeSecret\<close> below applied to its private key.
\<close>

record ecdh =
  privateKey :: buffer
  publicKey :: buffer

text \<open>
  The primitives of Node's \<open>crypto\<close> module and of \<open>./hkdf\<close> that
  thaliNotificationBeacons.js calls. They are not part of the file, so the codec takes
  them as a parameter. Each of the last five answers \<open>None\<close> when the call throws (as
  \<open>computeSecret\<close> does on a public key that is not a point of the curve, and the cipher
  on a key of the wrong length or on bad padding):
  \<^item> \<open>sha256 m\<close>: \<open>crypto.createHash('sha256').update(m).digest()\<close>
  \<^item> \<open>computeSecret priv pub\<close>: \<open>ecdh.computeSecret(pub)\<close> for the object holding \<open>priv\<close>
  \<^item> \<open>hkdf ikm salt\<close>: \<open>HKDF('sha256', ikm, salt).derive('', 32)\<close>
  \<^item> \<open>hmac key m\<close>: \<open>crypto.createHmac('sha256', key).update(m).digest()\<close>
  \<^item> \<open>aesEncrypt key iv m\<close>: \<open>createCipheriv('aes128', key, iv)\<close>, \<open>update(m)\<close> then \<open>final()\<close>
  \<^item> \<open>aesDecrypt key iv m\<close>: \<open>createDecipheriv('aes128', key, iv)\<close>, \<open>update(m)\<close> then
    \<open>final()\<close>
  The source catches what the decipher throws and nothing else: every other throw of a
  primitive reaches the caller of the codec.
\<close>

record crypto =
  sha256 :: "buffer \<Rightarrow> buffer"
  computeSecret :: "buffer \<Rightarrow> buffer \<Rightarrow> buffer option"
  hkdf :: "buffer \<Rightarrow> buffer \<Rightarrow> buffer option"
  hmac :: "buffer \<Rightarrow> buffer \<Rightarrow> buffer option"
  aesEncrypt :: "buffer \<Rightarrow> buffer \<Rightarrow> buffer \<Rightarrow> buffer option"
  aesDecrypt :: "buffer \<Rightarrow> buffer \<Rightarrow> buffer \<Rightarrow> buffer option"

section \<open>thaliNotificationBeacons.js\<close>

definition ONE_DAY :: int where
  "ONE_DAY = 86400000"

text \<open>
  What the two functions of the file can make their caller catch: every
  \<open>throw new Error(...)\<close> of the file, named after its message, and the exception of a
  primitive that is called outside a \<open>try\<close>.
\<close>

datatype primitive = ComputeSecret | Hkdf | Hmac | Cipher

datatype error =
    PublicKeysToNotifyNull          \<comment> \<open>'publicKeysToNotify cannot be null'\<close>
  | EcdhForLocalDeviceNull          \<comment> \<open>'ecdhForLocalDevice cannot be null'\<close>
  | SecondsUntilExpirationOutOfRange \<comment> \<open>'secondsUntilExpiration out of range.'\<close>
  | PreamblePublicKeyNotSecp256k1   \<comment> \<open>'Preamble public key must be from ECDH secp256k1'\<close>
  | PreambleExpirationNot64Bit      \<comment> \<open>'Preamble expiration must be a 64 bit integer'\<close>
  | ExpirationOutOfRange            \<comment> \<open>'Expiration out of range'\<close>
  | MalformedEncryptedBeaconKeyId   \<comment> \<open>'Malformed encrypted beacon key ID'\<close>
  | PrimitiveThrew primitive        \<comment> \<open>the exception of a primitive, passed on\<close>

definition createPublicKeyHash :: "crypto \<Rightarrow> buffer \<Rightarrow> buffer" where
  "createPublicKeyHash c ecdhPublicKey = slice_buffer (sha256 c ecdhPublicKey) 0 16"

text \<open>
  \<open>buf.writeInt32BE(v, offset)\<close> stores the two's complement of a 32-bit value, most
  significant byte first; \<open>buf.readInt32BE(offset)\<close> reads it back.
\<close>

definition writeInt32BE :: "32 word \<Rightarrow> buffer" where
  "writeInt32BE v = [ucast (drop_bit 24 v), ucast (drop_bit 16 v), ucast (drop_bit 8 v), ucast v]"

definition readInt32BE :: "buffer \<Rightarrow> nat \<Rightarrow> 32 word" where
  "readInt32BE buf off =
     push_bit 24 (ucast (buf ! off)) OR push_bit 16 (ucast (buf ! (off + 1)))
       OR push_bit 8 (ucast (buf ! (off + 2))) OR ucast (buf ! (off + 3))"

text \<open>
  \<open>Long.fromNumber(n)\<close> for an integral \<open>n\<close> inside the 64-bit range (the only values
  the codec passes, after its range check), with its \<open>high\<close> and \<open>low\<close> halves, and
  \<open>Long.fromBits(low, high).toNumber()\<close>.
\<close>

definition longHigh :: "int \<Rightarrow> 32 word" where
  "longHigh n = ucast (drop_bit 32 (word_of_int n :: 64 word))"

definition longLow :: "int \<Rightarrow> 32 word" where
  "longLow n = ucast (word_of_int n :: 64 word)"

definition longFromBitsToNumber :: "32 word \<Rightarrow> 32 word \<Rightarrow> int" where
  "longFromBitsToNumber low high = sint high * 2 ^ 32 + uint low"

definition expirationBufferOf :: "int \<Rightarrow> buffer" where
  "expirationBufferOf secondsUntilExpiration =
     writeInt32BE (longHigh secondsUntilExpiration) @ writeInt32BE (longLow secondsUntilExpiration)"

text \<open>
  The body of the \<open>forEach\<close> in \<open>generatePreambleAndBeacons\<close>: the beacon for one
  recipient key \<open>pubKy\<close>, or the exception of the first primitive that throws. \<open>ke\<close> is
  the ephemeral key pair of the stream.
\<close>

definition generateBeacon ::
  "crypto \<Rightarrow> ecdh \<Rightarrow> ecdh \<Rightarrow> buffer \<Rightarrow> buffer \<Rightarrow> buffer \<Rightarrow> error + buffer" where
  "generateBeacon c ecdhForLocalDevice ke expirationBuffer unencryptedKeyId pubKy =
     (case computeSecret c (privateKey ecdhForLocalDevice) pubKy of
        None \<Rightarrow> Inl (PrimitiveThrew ComputeSecret)
      | Some sxy \<Rightarrow>
     (case hkdf c sxy expirationBuffer of
        None \<Rightarrow> Inl (PrimitiveThrew Hkdf)
      | Some hkxy \<Rightarrow>
     (case hmac c hkxy expirationBuffer of
        None \<Rightarrow> Inl (PrimitiveThrew Hmac)
      | Some digest \<Rightarrow>
     (let beaconHmac = slice_buffer digest 0 16
      in case computeSecret c (privateKey ke) pubKy of
           None \<Rightarrow> Inl (PrimitiveThrew ComputeSecret)
         | Some sey \<Rightarrow>
        (case hkdf c sey expirationBuffer of
           None \<Rightarrow> Inl (PrimitiveThrew Hkdf)
         | Some keyingMaterial \<Rightarrow>
        (let iv = slice_buffer keyingMaterial 0 16;
             hkey = slice_buffer keyingMaterial 16 32
         in case aesEncrypt c hkey iv unencryptedKeyId of
              None \<Rightarrow> Inl (PrimitiveThrew Cipher)
            | Some encrypted \<Rightarrow> Inr (encrypted @ beaconHmac)))))))"

text \<open>The \<open>forEach\<close> itself: the beacons in the order of the keys, up to the first throw.\<close>

fun generateBeacons ::
  "crypto \<Rightarrow> ecdh \<Rightarrow> ecdh \<Rightarrow> buffer \<Rightarrow> buffer \<Rightarrow> buffer list \<Rightarrow> error + buffer list" where
  "generateBeacons c ecdhForLocalDevice ke expirationBuffer unencryptedKeyId [] = Inr []"
| "generateBeacons c ecdhForLocalDevice ke expirationBuffer unencryptedKeyId (pubKy # rest) =
     (case generateBeacon c ecdhForLocalDevice ke expirationBuffer unencryptedKeyId pubKy of
        Inl thrown \<Rightarrow> Inl thrown
      | Inr beacon \<Rightarrow>
          (case generateBeacons c ecdhForLocalDevice ke expirationBuffer unencryptedKeyId rest of
             Inl thrown \<Rightarrow> Inl thrown
           | Inr beacons \<Rightarrow> Inr (beacon # beacons)))"

text \<open>
  \<open>generatePreambleAndBeacons\<close>. The two nullable arguments are options, the number of
  seconds is an integer, the result is the thrown error or the returned value, where
  \<open>None\<close> is JavaScript's \<open>null\<close>. The key pair that the source draws with
  \<open>crypto.createECDH\<close> and \<open>generateKeys\<close> is the argument \<open>ke\<close>.
\<close>

definition generatePreambleAndBeacons ::
  "crypto \<Rightarrow> ecdh \<Rightarrow> buffer list option \<Rightarrow> ecdh option \<Rightarrow> int \<Rightarrow> error + buffer option" where
  "generatePreambleAndBeacons c ke publicKeysToNotify ecdhForLocalDevice secondsUntilExpiration =
     (case publicKeysToNotify of
        None \<Rightarrow> Inl PublicKeysToNotifyNull
      | Some keys \<Rightarrow>
          (case ecdhForLocalDevice of
             None \<Rightarrow> Inl EcdhForLocalDeviceNull
           | Some localDevice \<Rightarrow>
               if secondsUntilExpiration < 0 \<or> secondsUntilExpiration > ONE_DAY
               then Inl SecondsUntilExpirationOutOfRange
               else if length keys = 0 then Inr None
               else
                 (let pubKe = publicKey ke;
                      expirationBuffer = expirationBufferOf secondsUntilExpiration;
                      unencryptedKeyId = createPublicKeyHash c (publicKey localDevice)
                  in case generateBeacons c localDevice ke expirationBuffer unencryptedKeyId keys of
                       Inl thrown \<Rightarrow> Inl thrown
                     | Inr beacons \<Rightarrow> Inr (Some ((pubKe @ expirationBuffer) @ concat beacons)))))"

text \<open>
  One turn of the loop of \<open>parseBeacons\<close> on a complete 48-byte block: \<open>Inr (Some id)\<close>
  when the turn reaches \<open>return unencryptedKeyId\<close>, \<open>Inr None\<close> when it reaches one of
  the two \<open>continue\<close> statements or falls through the final comparison, and the
  exception when \<open>computeSecret\<close>, \<open>HKDF\<close> or \<open>createHmac\<close>, which stand outside the
  \<open>try\<close>, throw. The address book callback answers \<open>None\<close> for \<open>null\<close>.
\<close>

definition matchBeacon ::
  "crypto \<Rightarrow> ecdh \<Rightarrow> (buffer \<Rightarrow> buffer option) \<Rightarrow> buffer \<Rightarrow> buffer \<Rightarrow> buffer
     \<Rightarrow> error + buffer option" where
  "matchBeacon c ecdhForLocalDevice addressBookCallback pubKe expiration encryptedBeaconKeyId =
     (case computeSecret c (privateKey ecdhForLocalDevice) pubKe of
        None \<Rightarrow> Inl (PrimitiveThrew ComputeSecret)
      | Some sey \<Rightarrow>
     (case hkdf c sey expiration of
        None \<Rightarrow> Inl (PrimitiveThrew Hkdf)
      | Some keyingMaterial \<Rightarrow>
     (let iv = slice_buffer keyingMaterial 0 16;
          hkey = slice_buffer keyingMaterial 16 32
      in case aesDecrypt c hkey iv (slice_buffer encryptedBeaconKeyId 0 32) of
           None \<Rightarrow> Inr None
         | Some unencryptedKeyId \<Rightarrow>
        (case addressBookCallback unencryptedKeyId of
           None \<Rightarrow> Inr None
         | Some pubKx \<Rightarrow>
        (let beaconHmac = slice_buffer encryptedBeaconKeyId 32 48
         in case computeSecret c (privateKey ecdhForLocalDevice) pubKx of
              None \<Rightarrow> Inl (PrimitiveThrew ComputeSecret)
            | Some sxy \<Rightarrow>
           (case hkdf c sxy expiration of
              None \<Rightarrow> Inl (PrimitiveThrew Hkdf)
            | Some hkxy \<Rightarrow>
           (case hmac c hkxy expiration of
              None \<Rightarrow> Inl (PrimitiveThrew Hmac)
            | Some digest \<Rightarrow>
           (let otherBeaconHmac = slice_buffer digest 0 16
            in if beaconHmac = otherBeaconHmac then Inr (Some unencryptedKeyId)
               else Inr None))))))))"

text \<open>The loop \<open>for (var i = 73; i < len; i += bufferSize)\<close>, from index \<open>i\<close> on.\<close>

function beaconLoop ::
  "crypto \<Rightarrow> ecdh \<Rightarrow> (buffer \<Rightarrow> buffer option) \<Rightarrow> buffer \<Rightarrow> buffer \<Rightarrow> buffer \<Rightarrow> nat
     \<Rightarrow> error + buffer option" where
  "beaconLoop c ecdhForLocalDevice addressBookCallback pubKe expiration stream i =
     (if i < length stream then
        (let encryptedBeaconKeyId = slice_buffer stream i (i + 48)
         in if length encryptedBeaconKeyId \<noteq> 48 then Inl MalformedEncryptedBeaconKeyId
            else
              (case matchBeacon c ecdhForLocalDevice addressBookCallback pubKe expiration
                      encryptedBeaconKeyId of
                 Inl thrown \<Rightarrow> Inl thrown
               | Inr (Some unencryptedKeyId) \<Rightarrow> Inr (Some unencryptedKeyId)
               | Inr None \<Rightarrow>
                   beaconLoop c ecdhForLocalDevice addressBookCallback pubKe expiration stream
                     (i + 48)))
      else Inr None)"
  by pat_completeness auto
termination
  by (relation "measure (\<lambda>(c, l, a, p, e, stream, i). length stream - i)") auto

declare beaconLoop.simps [simp del]

definition parseBeacons ::
  "crypto \<Rightarrow> buffer option \<Rightarrow> ecdh \<Rightarrow> (buffer \<Rightarrow> buffer option) \<Rightarrow> error + buffer option" where
  "parseBeacons c beaconStreamWithPreAmble ecdhForLocalDevice addressBookCallback =
     (case beaconStreamWithPreAmble of
        None \<Rightarrow> Inr None
      | Some stream \<Rightarrow>
          (let pubKe = slice_buffer stream 0 65
           in if length pubKe \<noteq> 65 then Inl PreamblePublicKeyNotSecp256k1
              else
                (let expiration = slice_buffer stream 65 (65 + 8)
                 in if length expiration \<noteq> 8 then Inl PreambleExpirationNot64Bit
                    else
                      (let expirationLong =
                             longFromBitsToNumber (readInt32BE expiration 4) (readInt32BE expiration 0)
                       in if expirationLong < 0 \<or> expirationLong > ONE_DAY
                          then Inl ExpirationOutOfRange
                          else beaconLoop c ecdhForLocalDevice addressBookCallback pubKe
                                 expiration stream 73))))"

subsection \<open>Vocabulary for statements about beacon streams\<close>

text \<open>The value that \<open>parseBeacons\<close> range-checks: the expiration of the preamble.\<close>

definition preambleExpiration :: "buffer \<Rightarrow> int" where
  "preambleExpiration stream =
     longFromBitsToNumber (readInt32BE (slice_buffer stream 65 73) 4)
       (readInt32BE (slice_buffer stream 65 73) 0)"

text \<open>
  A stream passes the three preamble checks of \<open>parseBeacons\<close> when it holds the 73
  bytes of a preamble and its expiration is within the checked range.
\<close>

definition wellFormedPreamble :: "buffer \<Rightarrow> bool" where
  "wellFormedPreamble stream \<longleftrightarrow>
     73 \<le> length stream \<and> 0 \<le> preambleExpiration stream \<and> preambleExpiration stream \<le> ONE_DAY"

text \<open>The \<open>j\<close>-th 48-byte block after the preamble.\<close>

definition beaconAt :: "buffer \<Rightarrow> nat \<Rightarrow> buffer" where
  "beaconAt stream j = slice_buffer stream (73 + 48 * j) (73 + 48 * j + 48)"

text \<open>One loop turn on block \<open>j\<close> of a stream, with the preamble of the stream.\<close>

definition beaconTurn ::
  "crypto \<Rightarrow> ecdh \<Rightarrow> (buffer \<Rightarrow> buffer option) \<Rightarrow> buffer \<Rightarrow> nat \<Rightarrow> error + buffer option" where
  "beaconTurn c ecdhForLocalDevice addressBookCallback stream j =
     matchBeacon c ecdhForLocalDevice addressBookCallback (slice_buffer stream 0 65)
       (slice_buffer stream 65 73) (beaconAt stream j)"

text \<open>
  The three criteria of the beacon protocol, stated on the primitives. The keying
  material is \<open>HKDF(ECDH(local private key, preamble key), expiration)\<close>; \<open>None\<close> when a
  primitive throws.
\<close>

definition keyingMaterialOf :: "crypto \<Rightarrow> ecdh \<Rightarrow> buffer \<Rightarrow> buffer option" where
  "keyingMaterialOf c localDevice stream =
     (case computeSecret c (privateKey localDevice) (slice_buffer stream 0 65) of
        None \<Rightarrow> None
      | Some sey \<Rightarrow> hkdf c sey (slice_buffer stream 65 73))"

text \<open>
  Decryption of block \<open>j\<close>: its first 32 bytes under the key (bytes 16 to 32) and the
  IV (bytes 0 to 16) of the keying material. \<open>None\<close> when there is no keying material
  or the decipher throws.
\<close>

definition decryptedKeyId :: "crypto \<Rightarrow> ecdh \<Rightarrow> buffer \<Rightarrow> nat \<Rightarrow> buffer option" where
  "decryptedKeyId c localDevice stream j =
     (case keyingMaterialOf c localDevice stream of
        None \<Rightarrow> None
      | Some km \<Rightarrow>
          aesDecrypt c (slice_buffer km 16 32) (slice_buffer km 0 16)
            (slice_buffer (beaconAt stream j) 0 32))"

text \<open>
  The HMAC a beacon from the owner of \<open>pubKx\<close> must carry: the first 16 bytes of
  \<open>HMAC(HKDF(ECDH(local private key, pubKx), expiration), expiration)\<close>. \<open>None\<close> when a
  primitive throws.
\<close>

definition expectedHmac :: "crypto \<Rightarrow> ecdh \<Rightarrow> buffer \<Rightarrow> buffer \<Rightarrow> buffer option" where
  "expectedHmac c localDevice stream pubKx =
     (case computeSecret c (privateKey localDevice) pubKx of
        None \<Rightarrow> None
      | Some sxy \<Rightarrow>
          (case hkdf c sxy (slice_buffer stream 65 73) of
             None \<Rightarrow> None
           | Some hkxy \<Rightarrow>
               (case hmac c hkxy (slice_buffer stream 65 73) of
                  None \<Rightarrow> None
                | Some digest \<Rightarrow> Some (slice_buffer digest 0 16))))"

text \<open>
  Block \<open>j\<close> is accepted with key id \<open>keyId\<close>: its decryption succeeds and gives \<open>keyId\<close>,
  the address book has a public key for \<open>keyId\<close>, and the last 16 bytes of the block
  are the HMAC expected for that public key.
\<close>

definition beaconAccepted ::
  "crypto \<Rightarrow> ecdh \<Rightarrow> (buffer \<Rightarrow> buffer option) \<Rightarrow> buffer \<Rightarrow> nat \<Rightarrow> buffer \<Rightarrow> bool" where
  "beaconAccepted c localDevice addressBook stream j keyId \<longleftrightarrow>
     decryptedKeyId c localDevice stream j = Some keyId \<and>
     (case addressBook keyId of
        None \<Rightarrow> False
      | Some pubKx \<Rightarrow>
          expectedHmac c localDevice stream pubKx = Some (slice_buffer (beaconAt stream j) 32 48))"

text \<open>
  Block \<open>j\<close> is passed over: there is keying material, and the decryption of the block
  fails, or the address book has no public key for the decrypted key id, or the HMAC
  expected for that public key differs from the last 16 bytes of the block.
\<close>

definition beaconPassedOver ::
  "crypto \<Rightarrow> ecdh \<Rightarrow> (buffer \<Rightarrow> buffer option) \<Rightarrow> buffer \<Rightarrow> nat \<Rightarrow> bool" where
  "beaconPassedOver c localDevice addressBook stream j \<longleftrightarrow>
     keyingMaterialOf c localDevice stream \<noteq> None \<and>
     (case decryptedKeyId c localDevice stream j of
        None \<Rightarrow> True
      | Some keyId \<Rightarrow>
          (case addressBook keyId of
             None \<Rightarrow> True
           | Some pubKx \<Rightarrow>
               (case expectedHmac c localDevice stream pubKx of
                  None \<Rightarrow> False
                | Some expected \<Rightarrow> expected \<noteq> slice_buffer (beaconAt stream j) 32 48)))"

text \<open>
  What the codec needs of the primitives, as Node's \<open>crypto\<close> provides it: HKDF derives
  the 32 bytes asked for, SHA-256 and HMAC-SHA-256 digests are 32 bytes long, and under
  a 16-byte key and a 16-byte IV \<open>aes128\<close> encrypts, pads a 16-byte plaintext to 32
  bytes, and is undone by decryption.
\<close>

definition cryptoLaws :: "crypto \<Rightarrow> bool" where
  "cryptoLaws c \<longleftrightarrow>
     (\<forall>ikm salt. \<exists>km. hkdf c ikm salt = Some km \<and> length km = 32) \<and>
     (\<forall>key m. \<exists>digest. hmac c key m = Some digest \<and> length digest = 32) \<and>
     (\<forall>m. length (sha256 c m) = 32) \<and>
     (\<forall>key iv m. length key = 16 \<and> length iv = 16 \<longrightarrow>
        (\<exists>encrypted. aesEncrypt c key iv m = Some encrypted \<and>
           aesDecrypt c key iv encrypted = Some m \<and>
           (length m = 16 \<longrightarrow> length encrypted = 32)))"

text \<open>
  Diffie-Hellman agreement of two key pairs: each side computes a secret from its own
  private key and the public key of the other, and the two secrets are the same.
\<close>

definition ecdhAgree :: "crypto \<Rightarrow> ecdh \<Rightarrow> ecdh \<Rightarrow> bool" where
  "ecdhAgree c x y \<longleftrightarrow>
     (\<exists>secret. computeSecret c (privateKey x) (publicKey y) = Some secret \<and>
               computeSecret c (privateKey y) (publicKey x) = Some secret)"

subsection \<open>A small instance of the primitives\<close>

text \<open>
  An instance of the primitives on which the codec can be run inside the logic: a
  Diffie-Hellman exchange in the multiplicative monoid of bytes with generator 3, whose
  public keys are 65 bytes starting with 4 and whose \<open>computeSecret\<close> throws on anything
  else; a digest that spreads the byte sum of its input over 32 bytes; and a cipher that
  throws unless key and IV are 16 bytes long, prefixes the plaintext with the key and,
  on decryption, throws on a ciphertext that does not start with the key. It has the
  properties \<open>cryptoLaws\<close> and \<open>ecdhAgree\<close> and none of the strength of the real
  primitives.
\<close>

definition toyDigest :: "buffer \<Rightarrow> buffer" where
  "toyDigest m = map (\<lambda>j. word_of_nat j + sum_list m) [0..<32]"

definition toyPublicKey :: "buffer \<Rightarrow> buffer" where
  "toyPublicKey priv = 4 # replicate 63 0 @ [3 ^ unat (hd priv)]"

definition toyComputeSecret :: "buffer \<Rightarrow> buffer \<Rightarrow> buffer option" where
  "toyComputeSecret priv pub =
     (if length pub = 65 \<and> hd pub = 4 then Some [last pub ^ unat (hd priv)] else None)"

definition toyEncrypt :: "buffer \<Rightarrow> buffer \<Rightarrow> buffer \<Rightarrow> buffer option" where
  "toyEncrypt key iv m =
     (if length key = 16 \<and> length iv = 16 then Some (key @ m) else None)"

definition toyDecrypt :: "buffer \<Rightarrow> buffer \<Rightarrow> buffer \<Rightarrow> buffer option" where
  "toyDecrypt key iv m =
     (if length key = 16 \<and> length iv = 16 \<and> take 16 m = key then Some (drop 16 m) else None)"

definition toyCrypto :: crypto where
  "toyCrypto = \<lparr> sha256 = toyDigest, computeSecret = toyComputeSecret,
                 hkdf = (\<lambda>ikm salt. Some (toyDigest (ikm @ salt))),
                 hmac = (\<lambda>key m. Some (toyDigest (key @ m))),
                 aesEncrypt = toyEncrypt, aesDecrypt = toyDecrypt \<rparr>"

definition toyKeyPair :: "byte \<Rightarrow> ecdh" where
  "toyKeyPair k = \<lparr> privateKey = [k], publicKey = toyPublicKey [k] \<rparr>"

definition alice :: ecdh where "alice = toyKeyPair 4"
definition bob :: ecdh where "bob = toyKeyPair 7"
definition carol :: ecdh where "carol = toyKeyPair 13"
definition ephemeral :: ecdh where "ephemeral = toyKeyPair 11"

text \<open>Bob's address book: it knows Alice and nobody else.\<close>

definition bobsAddressBook :: "buffer \<Rightarrow> buffer option" where
  "bobsAddressBook keyId =
     (if keyId = createPublicKeyHash toyCrypto (publicKey alice) then Some (publicKey alice)
      else None)"

definition emptyAddressBook :: "buffer \<Rightarrow> buffer option" where
  "emptyAddressBook keyId = None"

text \<open>The stream Alice generates for Bob alone, and the one she generates for Carol and Bob.\<close>

definition streamForBob :: buffer where
  "streamForBob =
     (case generatePreambleAndBeacons toyCrypto ephemeral (Some [publicKey bob]) (Some alice) 3600 of
        Inr (Some s) \<Rightarrow> s | _ \<Rightarrow> [])"

text \<open>Alice's stream for Bob with the last byte of the HMAC of its beacon changed.\<close>

definition tamperedStreamForBob :: buffer where
  "tamperedStreamForBob = butlast streamForBob @ [last streamForBob + 1]"

definition streamForCarolAndBob :: buffer where
  "streamForCarolAndBob =
     (case generatePreambleAndBeacons toyCrypto ephemeral (Some [publicKey carol, publicKey bob])
             (Some alice) 3600 of
        Inr (Some s) \<Rightarrow> s | _ \<Rightarrow> [])"


section \<open>thaliManager.js\<close>

text \<open>
  The role that the first middleware stores in \<open>req.connection.pskRole\<close>: one of the
  strings \<open>'beacon'\<close>, \<open>'replication'\<close> and \<open>'public'\<close>.
\<close>

datatype role = Beacon | Replication | Public

text \<open>
  \<open>req.connection\<close>, as far as the manager reads and writes it. \<open>pskRole\<close> is \<open>None\<close>
  as long as the property has not been assigned on the connection.
\<close>

record connection =
  authorized :: bool
  pskIdentity :: string
  pskRole :: "role option"

datatype verb = GET | HEAD | POST | PUT | DELETE | OPTIONS

record request =
  req_method :: verb
  req_path :: string

text \<open>
  What a middleware does with a request: it sends a response with a status, which ends
  the handling, or it calls \<open>next()\<close>, or it throws. \<open>ReferenceErrorAfterStatus n\<close> is
  the handler that has called \<open>res.status(n)\<close> and then throws a \<open>ReferenceError\<close>
  without having sent anything: the error goes to the error handling of express, which
  is outside the sources.
\<close>

datatype outcome = Respond nat | Next | ReferenceErrorAfterStatus nat

text \<open>
  A secret is a Buffer object, and \<open>===\<close> on objects compares their identity, not their
  bytes: a secret is modelled by the reference to the object.
\<close>

datatype bufferRef = BufferRef nat

text \<open>The constants of \<open>thaliConfig\<close> that the manager uses.\<close>

record thaliConfig =
  BEACON_KEY :: bufferRef
  BASE_DB_PATH :: string
  LOCAL_SEQ_POINT_PREFIX :: string

text \<open>
  A \<open>ThaliManager\<close> instance, as far as its router depends on it: the configuration,
  the constructor argument \<open>dbName\<close>, and the two lookups that the notification sender
  hands out, where \<open>None\<close> is a missing entry. \<open>bufferToString\<close> is
  \<open>Buffer.prototype.toString()\<close>, the string by which \<open>==\<close> compares a Buffer with a
  string.
\<close>

record manager =
  config :: thaliConfig
  dbName :: string
  getPskIdToSecret :: "string \<Rightarrow> bufferRef option"
  getPskIdToPublicKey :: "string \<Rightarrow> buffer option"
  bufferToString :: "buffer \<Rightarrow> string"

text \<open>
  The first \<open>router.all('*', ...)\<close>: the role assignment. On a connection that is not
  authorized the handler evaluates \<open>res.status(401).send(msg401)\<close>: \<open>res.status(401)\<close>
  sets the status, and the argument \<open>msg401\<close>, an identifier that the file (in strict
  mode) binds nowhere, then throws a \<open>ReferenceError\<close> before \<open>send\<close> is called.
\<close>

definition assignPskRole :: "manager \<Rightarrow> request \<Rightarrow> connection \<Rightarrow> outcome \<times> connection" where
  "assignPskRole m req conn =
     (if authorized conn then
        (let secret = getPskIdToSecret m (pskIdentity conn)
         in if secret = Some (BEACON_KEY (config m)) then (Next, conn\<lparr>pskRole := Some Beacon\<rparr>)
            else if secret \<noteq> None then (Next, conn\<lparr>pskRole := Some Replication\<rparr>)
            else (Next, conn\<lparr>pskRole := Some Public\<rparr>))
      else (ReferenceErrorAfterStatus 401, conn))"

text \<open>
  The callback that the constructor passes to \<open>salti\<close>:
  \<open>thaliId == self._getPskIdToPublicKey(req.connection.pskIdentity)\<close>. A string is never
  \<open>==\<close> to a missing entry.
\<close>

definition thaliIdValidator :: "manager \<Rightarrow> string \<Rightarrow> connection \<Rightarrow> bool" where
  "thaliIdValidator m thaliId conn =
     (case getPskIdToPublicKey m (pskIdentity conn) of
        None \<Rightarrow> False
      | Some publicKeyOfCaller \<Rightarrow> thaliId = bufferToString m publicKeyOfCaller)"

text \<open>
  \<open>ThaliManager._acl\<close>. A path pattern is the list of its segments: a literal, \<open>{:db}\<close>,
  \<open>:id\<close> or \<open>{:id}\<close>, or \<open>LOCAL_SEQ_POINT_PREFIX\<close> followed by \<open>{:id}\<close>.
\<close>

datatype segment = Literal string | DbParam | IdParam | PrefixedIdParam string

definition ThaliManager_acl :: "thaliConfig \<Rightarrow> (role \<times> (segment list \<times> verb list) list) list" where
  "ThaliManager_acl cfg =
     [(Replication,
        [([], [GET]),
         ([DbParam], [GET]),
         ([DbParam, Literal ''_all_docs''], [GET, HEAD, POST]),
         ([DbParam, Literal ''_bulk_get''], [POST]),
         ([DbParam, Literal ''_changes''], [GET, POST]),
         ([DbParam, Literal ''_revs_diff''], [POST]),
         ([DbParam, IdParam], [GET]),
         ([DbParam, IdParam, Literal ''attachment''], [GET]),
         ([DbParam, Literal ''_local'', IdParam], [GET, PUT, DELETE]),
         ([DbParam, Literal ''_local'', PrefixedIdParam (LOCAL_SEQ_POINT_PREFIX cfg)],
            [GET, PUT, DELETE])]),
      (Beacon,
        [([Literal ''NotificationBeacons''], [GET])])]"

text \<open>
  Modelled from the spec: the middleware that \<open>salti(dbName, acl, callback, {prefix})\<close>
  returns; \<open>salti\<close> is a package outside the sources. By sections 4.8 and 6 of the spec
  it admits a request when the table has, for the role of the connection, a pattern
  that matches the path with the method among its verbs, and for a path of the form
  \<open>_local/<LOCAL_SEQ_POINT_PREFIX><id>\<close> only when the callback accepts \<open>id\<close>; every
  other request is answered with 403. A pattern is matched segment by segment after
  the prefix \<open>BASE_DB_PATH\<close> is removed from the path; \<open>{:db}\<close> stands for \<open>dbName\<close>.
\<close>

fun splitSegments :: "string \<Rightarrow> string \<Rightarrow> string list" where
  "splitSegments seg [] = (if seg = [] then [] else [seg])"
| "splitSegments seg (ch # rest) =
     (if ch = CHR ''/'' then (if seg = [] then splitSegments [] rest
                            else seg # splitSegments [] rest)
      else splitSegments (seg @ [ch]) rest)"

definition stripPrefix :: "string \<Rightarrow> string \<Rightarrow> string" where
  "stripPrefix pre p = (if take (length pre) p = pre then drop (length pre) p else p)"

fun segmentMatches :: "string \<Rightarrow> segment \<Rightarrow> string \<Rightarrow> bool" where
  "segmentMatches db (Literal s) seg = (seg = s)"
| "segmentMatches db DbParam seg = (seg = db)"
| "segmentMatches db IdParam seg = (seg \<noteq> [])"
| "segmentMatches db (PrefixedIdParam pre) seg = (take (length pre) seg = pre)"

definition aclAllows ::
  "(role \<times> (segment list \<times> verb list) list) list \<Rightarrow> string \<Rightarrow> role \<Rightarrow> verb \<Rightarrow> string list \<Rightarrow> bool" where
  "aclAllows acl db r v segs =
     list_ex (\<lambda>(r', paths). r' = r \<and>
        list_ex (\<lambda>(pattern, verbs). list_all2 (segmentMatches db) pattern segs \<and> List.member verbs v)
          paths) acl"

definition localSeqPointId :: "thaliConfig \<Rightarrow> string \<Rightarrow> string list \<Rightarrow> string option" where
  "localSeqPointId cfg db segs =
     (case segs of
        [d, l, x] \<Rightarrow>
          if d = db \<and> l = ''_local'' \<and>
             take (length (LOCAL_SEQ_POINT_PREFIX cfg)) x = LOCAL_SEQ_POINT_PREFIX cfg
          then Some (drop (length (LOCAL_SEQ_POINT_PREFIX cfg)) x) else None
      | _ \<Rightarrow> None)"

definition saltiGate :: "manager \<Rightarrow> request \<Rightarrow> connection \<Rightarrow> outcome \<times> connection" where
  "saltiGate m req conn =
     (let segs = splitSegments [] (stripPrefix (BASE_DB_PATH (config m)) (req_path req))
      in case pskRole conn of
           None \<Rightarrow> (Respond 403, conn)
         | Some r \<Rightarrow>
             if aclAllows (ThaliManager_acl (config m)) (dbName m) r (req_method req) segs \<and>
                (case localSeqPointId (config m) (dbName m) segs of
                   None \<Rightarrow> True
                 | Some thaliId \<Rightarrow> thaliIdValidator m thaliId conn)
             then (Next, conn) else (Respond 403, conn))"

text \<open>
  An \<open>express.Router()\<close>: its layers in the order of their registration, each with the
  paths it is mounted on. A request runs through the layers mounted on its path until
  one responds or throws, and is answered 404 when none does; after a throw express
  runs no further layer of these (they are not error handlers). \<open>dispatch\<close> also
  returns the layers the request ran through, each with the connection as the layer
  found it.
\<close>

datatype stage = RoleAssignment | AclGate | NotificationRoutes | DatabaseRouter

type_synonym layer = "stage \<times> (string \<Rightarrow> bool) \<times> (request \<Rightarrow> connection \<Rightarrow> outcome \<times> connection)"

fun dispatch ::
  "layer list \<Rightarrow> request \<Rightarrow> connection \<Rightarrow> (stage \<times> connection) list \<times> outcome \<times> connection" where
  "dispatch [] req conn = ([], Respond 404, conn)"
| "dispatch ((s, mounted, handler) # layers) req conn =
     (if mounted (req_path req) then
        (case handler req conn of
           (Respond status, conn') \<Rightarrow> ([(s, conn)], Respond status, conn')
         | (ReferenceErrorAfterStatus status, conn') \<Rightarrow>
             ([(s, conn)], ReferenceErrorAfterStatus status, conn')
         | (Next, conn') \<Rightarrow>
             (case dispatch layers req conn' of
                (visited, result) \<Rightarrow> ((s, conn) # visited, result)))
      else dispatch layers req conn)"

definition mountedEverywhere :: "string \<Rightarrow> bool" where
  "mountedEverywhere p = True"

text \<open>
  \<open>router.use(base, ...)\<close>: the layer runs on the paths that start with \<open>base\<close>,
  letters compared without regard to case, up to the end of the path or a \<open>/\<close>.
\<close>

definition lowerCase :: "char \<Rightarrow> char" where
  "lowerCase ch =
     (if 65 \<le> (of_char ch :: nat) \<and> (of_char ch :: nat) \<le> 90
      then char_of ((of_char ch :: nat) + 32) else ch)"

definition mountedUnder :: "string \<Rightarrow> string \<Rightarrow> bool" where
  "mountedUnder base p \<longleftrightarrow>
     map lowerCase (take (length base) p) = map lowerCase base \<and>
     (length p \<le> length base \<or> p ! length base = CHR ''/'')"

text \<open>
  The router as the constructor of \<open>ThaliManager\<close> builds it: the role assignment, the
  \<open>salti\<close> gate, whatever routes the notification sender adds to the router it is
  handed, and \<open>expressPouchDB\<close> under \<open>BASE_DB_PATH\<close>. The last two are outside the
  sources; they are parameters that respond or pass and leave the connection as it is.
\<close>

definition ThaliManager_router ::
  "manager \<Rightarrow> (request \<Rightarrow> connection \<Rightarrow> outcome) \<Rightarrow> (request \<Rightarrow> connection \<Rightarrow> outcome) \<Rightarrow> layer list" where
  "ThaliManager_router m notificationRoutes expressPouchDB =
     [(RoleAssignment, mountedEverywhere, assignPskRole m),
      (AclGate, mountedEverywhere, saltiGate m),
      (NotificationRoutes, mountedEverywhere, \<lambda>req conn. (notificationRoutes req conn, conn)),
      (DatabaseRouter, mountedUnder (BASE_DB_PATH (config m)),
         \<lambda>req conn. (expressPouchDB req conn, conn))]"

subsection \<open>A small manager\<close>

text \<open>
  A manager to run requests on: the beacon identity with the beacon key, and Alice as
  the one peer that a beacon was generated for; the two secrets are two objects. All
  bytes of Alice's public key and of its hash are below 128, where the UTF-8 decoding
  of \<open>Buffer.prototype.toString()\<close> maps each byte to the character of the same code,
  which is what \<open>asciiString\<close> does.
\<close>

definition asciiString :: "buffer \<Rightarrow> string" where
  "asciiString buf = map (\<lambda>b. char_of (unat b)) buf"

definition toyConfig :: thaliConfig where
  "toyConfig = \<lparr> BEACON_KEY = BufferRef 0, BASE_DB_PATH = ''/db'',
                 LOCAL_SEQ_POINT_PREFIX = ''thali_'' \<rparr>"

definition toyManager :: manager where
  "toyManager =
     \<lparr> config = toyConfig, dbName = ''data'',
       getPskIdToSecret = (\<lambda>pskId. if pskId = ''beacons'' then Some (BufferRef 0)
                                   else if pskId = ''alice'' then Some (BufferRef 1)
                                   else None),
       getPskIdToPublicKey = (\<lambda>pskId. if pskId = ''alice'' then Some (publicKey alice) else None),
       bufferToString = asciiString \<rparr>"

definition aliceConnection :: connection where
  "aliceConnection = \<lparr> authorized = True, pskIdentity = ''alice'', pskRole = None \<rparr>"

text \<open>
  Alice's request for her own local sequence point: the id in the path is the hash of
  her public key.
\<close>

definition aliceLocalSeqRequest :: request where
  "aliceLocalSeqRequest =
     \<lparr> req_method = PUT,
       req_path = ''/db/data/_local/thali_'' @
         asciiString (createPublicKeyHash toyCrypto (publicKey alice)) \<rparr>"


section \<open>The peer registry of thaliMobile.js\<close>






















section \<open>Lemmas on the beacon codec\<close>

subsection \<open>The expiration field\<close>

lemma readInt32BE_first: "readInt32BE (writeInt32BE v @ rest) 0 = v"
  unfolding readInt32BE_def writeInt32BE_def
  apply (rule bit_word_eqI)
  subgoal for n
    by (cases "n < 8"; cases "n < 16"; cases "n < 24") (auto simp add: bit_simps)
  done

lemma readInt32BE_second: "readInt32BE (writeInt32BE h @ writeInt32BE v @ rest) 4 = v"
  unfolding readInt32BE_def writeInt32BE_def
  apply (rule bit_word_eqI)
  subgoal for n
    by (cases "n < 8"; cases "n < 16"; cases "n < 24") (auto simp add: bit_simps)
  done

lemma longLow_small: "0 \<le> n \<Longrightarrow> n < 2 ^ 31 \<Longrightarrow> uint (longLow n) = n"
  unfolding longLow_def
  by (simp add: uint_word_of_int unsigned_ucast_eq take_bit_eq_mod)

lemma no_high_bit:
  assumes "0 \<le> (n::int)" "n < 2 ^ 31"
  shows "\<not> bit n (32 + k)"
proof -
  have "(2::int) ^ 31 \<le> 2 ^ (32 + k)"
    by (rule power_increasing) simp_all
  with assms have "n div 2 ^ (32 + k) = 0"
    by simp
  then show ?thesis
    by (simp add: bit_iff_odd)
qed

lemma longHigh_small: "0 \<le> n \<Longrightarrow> n < 2 ^ 31 \<Longrightarrow> longHigh n = 0"
  unfolding longHigh_def
  by (rule bit_word_eqI) (auto simp add: bit_simps no_high_bit)

lemma length_expirationBufferOf: "length (expirationBufferOf t) = 8"
  by (simp add: expirationBufferOf_def writeInt32BE_def)

lemma expiration_round_trip:
  assumes "0 \<le> t" "t < 2 ^ 31"
  shows "longFromBitsToNumber (readInt32BE (expirationBufferOf t) 4)
           (readInt32BE (expirationBufferOf t) 0) = t"
proof -
  have "readInt32BE (expirationBufferOf t) 0 = longHigh t"
    unfolding expirationBufferOf_def by (rule readInt32BE_first)
  moreover have "readInt32BE (expirationBufferOf t) 4 = longLow t"
    using readInt32BE_second [of "longHigh t" "longLow t" "[]"]
    by (simp add: expirationBufferOf_def)
  ultimately show ?thesis
    using assms by (simp add: longFromBitsToNumber_def longLow_small longHigh_small)
qed

subsection \<open>The loop\<close>

lemma length_slice_buffer: "length (slice_buffer buf a b) = min b (length buf) - a"
  by (simp add: slice_buffer_def min.commute)

lemma beaconLoop_end:
  "length stream \<le> i \<Longrightarrow> beaconLoop c l a p e stream i = Inr None"
  by (subst beaconLoop.simps) simp

lemma beaconLoop_truncated:
  "i < length stream \<Longrightarrow> length stream < i + 48 \<Longrightarrow>
   beaconLoop c l a p e stream i = Inl MalformedEncryptedBeaconKeyId"
  by (subst beaconLoop.simps) (auto simp add: length_slice_buffer)

lemma beaconLoop_skip:
  "i + 48 \<le> length stream \<Longrightarrow>
   matchBeacon c l a p e (slice_buffer stream i (i + 48)) = Inr None \<Longrightarrow>
   beaconLoop c l a p e stream i = beaconLoop c l a p e stream (i + 48)"
  by (subst beaconLoop.simps) (simp add: length_slice_buffer)

lemma beaconLoop_match:
  "i + 48 \<le> length stream \<Longrightarrow>
   matchBeacon c l a p e (slice_buffer stream i (i + 48)) = Inr (Some k) \<Longrightarrow>
   beaconLoop c l a p e stream i = Inr (Some k)"
  by (subst beaconLoop.simps) (simp add: length_slice_buffer)

lemma beaconLoop_threw:
  "i + 48 \<le> length stream \<Longrightarrow>
   matchBeacon c l a p e (slice_buffer stream i (i + 48)) = Inl thrown \<Longrightarrow>
   beaconLoop c l a p e stream i = Inl thrown"
  by (subst beaconLoop.simps) (simp add: length_slice_buffer)

lemma turn_cases:
  fixes r :: "error + buffer option"
  obtains (threw) thrown where "r = Inl thrown"
    | (passed) "r = Inr None"
    | (matched) k where "r = Inr (Some k)"
  by (cases r) auto

lemma beaconLoop_null_aligned:
  "beaconLoop c l a p e stream i = Inr None \<Longrightarrow> i \<le> length stream \<Longrightarrow>
   (length stream - i) mod 48 = 0"
proof (induction "length stream - i" arbitrary: i rule: less_induct)
  case less
  show ?case
  proof (cases "i < length stream")
    case False
    with less.prems show ?thesis by simp
  next
    case True
    show ?thesis
    proof (cases "length stream < i + 48")
      case True
      from beaconLoop_truncated [OF \<open>i < length stream\<close> True] less.prems show ?thesis
        by simp
    next
      case False
      then have full: "i + 48 \<le> length stream" by simp
      show ?thesis
      proof (cases "matchBeacon c l a p e (slice_buffer stream i (i + 48))" rule: turn_cases)
        case (threw thrown)
        from beaconLoop_threw [OF full threw] less.prems show ?thesis by simp
      next
        case (matched k)
        from beaconLoop_match [OF full matched] less.prems show ?thesis by simp
      next
        case passed
        from beaconLoop_skip [OF full passed] less.prems
        have "beaconLoop c l a p e stream (i + 48) = Inr None"
          by simp
        moreover from full True have "length stream - (i + 48) < length stream - i"
          by simp
        ultimately have rest: "(length stream - (i + 48)) mod 48 = 0"
          using full by (intro less.hyps) simp_all
        from full obtain d where d: "length stream = (i + 48) + d"
          using le_iff_add by blast
        from rest show ?thesis
          unfolding d by (simp add: add.assoc)
      qed
    qed
  qed
qed

lemma beaconLoop_error:
  "beaconLoop c l a p e stream i = Inl err \<Longrightarrow>
   (err = MalformedEncryptedBeaconKeyId \<and> (length stream - i) mod 48 \<noteq> 0) \<or>
   (\<exists>j. i + 48 * j + 48 \<le> length stream \<and>
        matchBeacon c l a p e (slice_buffer stream (i + 48 * j) (i + 48 * j + 48)) = Inl err)"
proof (induction "length stream - i" arbitrary: i rule: less_induct)
  case less
  show ?case
  proof (cases "i < length stream")
    case False
    then have "beaconLoop c l a p e stream i = Inr None"
      by (simp add: beaconLoop_end)
    with less.prems show ?thesis by simp
  next
    case True
    show ?thesis
    proof (cases "length stream < i + 48")
      case True
      from beaconLoop_truncated [OF \<open>i < length stream\<close> True] less.prems
      have "err = MalformedEncryptedBeaconKeyId" by simp
      moreover from True \<open>i < length stream\<close> have "(length stream - i) mod 48 \<noteq> 0"
        by simp
      ultimately show ?thesis by simp
    next
      case False
      then have full: "i + 48 \<le> length stream" by simp
      show ?thesis
      proof (cases "matchBeacon c l a p e (slice_buffer stream i (i + 48))" rule: turn_cases)
        case (threw thrown)
        from beaconLoop_threw [OF full threw] less.prems have "thrown = err" by simp
        with threw full have "i + 48 * 0 + 48 \<le> length stream \<and>
            matchBeacon c l a p e (slice_buffer stream (i + 48 * 0) (i + 48 * 0 + 48)) = Inl err"
          by simp
        then show ?thesis by blast
      next
        case (matched k)
        from beaconLoop_match [OF full matched] less.prems show ?thesis by simp
      next
        case passed
        from beaconLoop_skip [OF full passed] less.prems
        have next_turn: "beaconLoop c l a p e stream (i + 48) = Inl err"
          by simp
        from full True have "length stream - (i + 48) < length stream - i"
          by simp
        from less.hyps [OF this next_turn]
        consider "err = MalformedEncryptedBeaconKeyId" "(length stream - (i + 48)) mod 48 \<noteq> 0"
          | j where "i + 48 + 48 * j + 48 \<le> length stream"
            "matchBeacon c l a p e
               (slice_buffer stream (i + 48 + 48 * j) (i + 48 + 48 * j + 48)) = Inl err"
          by blast
        then show ?thesis
        proof cases
          case 1
          from full obtain d where d: "length stream = (i + 48) + d"
            using le_iff_add by blast
          from 1 show ?thesis
            unfolding d by (simp add: add.assoc)
        next
          case 2
          have shift: "i + 48 + 48 * j = i + 48 * Suc j"
            by simp
          from 2 have "i + 48 * Suc j + 48 \<le> length stream \<and>
              matchBeacon c l a p e
                (slice_buffer stream (i + 48 * Suc j) (i + 48 * Suc j + 48)) = Inl err"
            unfolding shift by simp
          then show ?thesis by blast
        qed
      qed
    qed
  qed
qed

lemma beaconLoop_first_match:
  "i + 48 * j + 48 \<le> length stream \<Longrightarrow>
   matchBeacon c l a p e (slice_buffer stream (i + 48 * j) (i + 48 * j + 48)) = Inr (Some k) \<Longrightarrow>
   (\<And>j'. j' < j \<Longrightarrow>
      matchBeacon c l a p e (slice_buffer stream (i + 48 * j') (i + 48 * j' + 48)) = Inr None) \<Longrightarrow>
   beaconLoop c l a p e stream i = Inr (Some k)"
proof (induction j arbitrary: i)
  case 0
  then show ?case by (simp add: beaconLoop_match)
next
  case (Suc j)
  from Suc.prems(1) have full: "i + 48 \<le> length stream" by simp
  from Suc.prems(3) [of 0]
  have "matchBeacon c l a p e (slice_buffer stream i (i + 48)) = Inr None"
    by simp
  from beaconLoop_skip [OF full this]
  have step: "beaconLoop c l a p e stream i = beaconLoop c l a p e stream (i + 48)" .
  have shift: "(i + 48) + 48 * j' = i + 48 * Suc j'" for j'
    by simp
  have "beaconLoop c l a p e stream (i + 48) = Inr (Some k)"
  proof (rule Suc.IH)
    show "i + 48 + 48 * j + 48 \<le> length stream"
      using Suc.prems(1) by simp
    show "matchBeacon c l a p e
            (slice_buffer stream (i + 48 + 48 * j) (i + 48 + 48 * j + 48)) = Inr (Some k)"
      using Suc.prems(2) unfolding shift .
    show "matchBeacon c l a p e
            (slice_buffer stream (i + 48 + 48 * j') (i + 48 + 48 * j' + 48)) = Inr None"
      if "j' < j" for j'
      using Suc.prems(3) [of "Suc j'"] that unfolding shift by simp
  qed
  with step show ?case by simp
qed

lemma beaconLoop_no_match:
  "(\<And>j. i + 48 * j + 48 \<le> length stream \<Longrightarrow>
      matchBeacon c l a p e (slice_buffer stream (i + 48 * j) (i + 48 * j + 48)) = Inr None) \<Longrightarrow>
   beaconLoop c l a p e stream i =
     (if (length stream - i) mod 48 = 0 then Inr None else Inl MalformedEncryptedBeaconKeyId)"
proof (induction "length stream - i" arbitrary: i rule: less_induct)
  case less
  show ?case
  proof (cases "i < length stream")
    case False
    then show ?thesis by (simp add: beaconLoop_end)
  next
    case True
    show ?thesis
    proof (cases "length stream < i + 48")
      case True
      with \<open>i < length stream\<close> have "(length stream - i) mod 48 \<noteq> 0" by simp
      with beaconLoop_truncated [OF \<open>i < length stream\<close> True] show ?thesis by simp
    next
      case False
      then have full: "i + 48 \<le> length stream" by simp
      from less.prems [of 0] full
      have passed: "matchBeacon c l a p e (slice_buffer stream i (i + 48)) = Inr None"
        by simp
      have shift: "(i + 48) + 48 * j = i + 48 * Suc j" for j
        by simp
      from full True have smaller: "length stream - (i + 48) < length stream - i"
        by simp
      have "beaconLoop c l a p e stream (i + 48) =
          (if (length stream - (i + 48)) mod 48 = 0 then Inr None
           else Inl MalformedEncryptedBeaconKeyId)"
      proof (rule less.hyps [OF smaller])
        show "matchBeacon c l a p e
                (slice_buffer stream (i + 48 + 48 * j) (i + 48 + 48 * j + 48)) = Inr None"
          if "i + 48 + 48 * j + 48 \<le> length stream" for j
          using less.prems [of "Suc j"] that unfolding shift by simp
      qed
      moreover from full obtain d where d: "length stream = (i + 48) + d"
        using le_iff_add by blast
      ultimately show ?thesis
        unfolding beaconLoop_skip [OF full passed] d by (simp add: add.assoc)
    qed
  qed
qed

subsection \<open>A loop turn and the three criteria\<close>

lemma beaconTurn_accepted:
  "beaconAccepted c l a stream j k \<Longrightarrow> beaconTurn c l a stream j = Inr (Some k)"
  by (auto simp add: beaconAccepted_def decryptedKeyId_def keyingMaterialOf_def
      expectedHmac_def beaconTurn_def matchBeacon_def Let_def split: option.splits)

lemma beaconTurn_passedOver:
  "beaconPassedOver c l a stream j \<Longrightarrow> beaconTurn c l a stream j = Inr None"
  by (auto simp add: beaconPassedOver_def decryptedKeyId_def keyingMaterialOf_def
      expectedHmac_def beaconTurn_def matchBeacon_def Let_def split: option.splits)

lemma beaconTurn_threw:
  assumes threw: "beaconTurn c l a stream j = Inl err"
  shows "\<exists>p. err = PrimitiveThrew p \<and>
     (keyingMaterialOf c l stream = None \<or>
      (\<exists>k pubKx. a k = Some pubKx \<and> expectedHmac c l stream pubKx = None))"
proof (cases "keyingMaterialOf c l stream")
  case None
  with threw have "\<exists>p. err = PrimitiveThrew p"
    by (auto simp add: keyingMaterialOf_def beaconTurn_def matchBeacon_def
        split: option.splits)
  with None show ?thesis by blast
next
  case (Some km)
  then obtain sey
    where sey: "computeSecret c (privateKey l) (slice_buffer stream 0 65) = Some sey"
      and km: "hkdf c sey (slice_buffer stream 65 73) = Some km"
    by (auto simp add: keyingMaterialOf_def split: option.splits)
  show ?thesis
  proof (cases "aesDecrypt c (slice_buffer km 16 32) (slice_buffer km 0 16)
      (slice_buffer (beaconAt stream j) 0 32)")
    case None
    with threw sey km show ?thesis
      by (simp add: beaconTurn_def matchBeacon_def Let_def)
  next
    case decrypted: (Some k)
    show ?thesis
    proof (cases "a k")
      case None
      with threw sey km decrypted show ?thesis
        by (simp add: beaconTurn_def matchBeacon_def Let_def)
    next
      case known: (Some pubKx)
      show ?thesis
      proof (cases "expectedHmac c l stream pubKx")
        case None
        from threw sey km decrypted known have "\<exists>p. err = PrimitiveThrew p"
          by (auto simp add: beaconTurn_def matchBeacon_def Let_def
              split: option.splits if_splits)
        with None known show ?thesis by blast
      next
        case (Some expected)
        with threw sey km decrypted known show ?thesis
          by (auto simp add: beaconTurn_def matchBeacon_def Let_def expectedHmac_def
              split: option.splits if_splits)
      qed
    qed
  qed
qed

subsection \<open>From \<open>parseBeacons\<close> to the loop\<close>

lemma parseBeacons_wellFormed:
  "wellFormedPreamble stream \<Longrightarrow>
   parseBeacons c (Some stream) l a =
     beaconLoop c l a (slice_buffer stream 0 65) (slice_buffer stream 65 73) stream 73"
  by (simp add: parseBeacons_def wellFormedPreamble_def preambleExpiration_def
      length_slice_buffer Let_def)

lemma parseBeacons_short_key:
  "length stream < 65 \<Longrightarrow> parseBeacons c (Some stream) l a = Inl PreamblePublicKeyNotSecp256k1"
  by (simp add: parseBeacons_def length_slice_buffer Let_def)

lemma parseBeacons_short_expiration:
  "65 \<le> length stream \<Longrightarrow> length stream < 73 \<Longrightarrow>
   parseBeacons c (Some stream) l a = Inl PreambleExpirationNot64Bit"
  by (auto simp add: parseBeacons_def length_slice_buffer Let_def)

lemma parseBeacons_out_of_range:
  "73 \<le> length stream \<Longrightarrow> \<not> wellFormedPreamble stream \<Longrightarrow>
   parseBeacons c (Some stream) l a = Inl ExpirationOutOfRange"
  by (auto simp add: parseBeacons_def wellFormedPreamble_def preambleExpiration_def
      length_slice_buffer Let_def)

lemma beaconLoop_73_first_match:
  assumes "73 + 48 * j + 48 \<le> length stream"
    and "beaconTurn c l a stream j = Inr (Some k)"
    and "\<And>j'. j' < j \<Longrightarrow> beaconTurn c l a stream j' = Inr None"
  shows "beaconLoop c l a (slice_buffer stream 0 65) (slice_buffer stream 65 73) stream 73 =
           Inr (Some k)"
  using assms unfolding beaconTurn_def beaconAt_def
  by (rule beaconLoop_first_match)

lemma beaconLoop_73_no_match:
  assumes "\<And>j. 73 + 48 * j + 48 \<le> length stream \<Longrightarrow> beaconTurn c l a stream j = Inr None"
  shows "beaconLoop c l a (slice_buffer stream 0 65) (slice_buffer stream 65 73) stream 73 =
           (if (length stream - 73) mod 48 = 0 then Inr None
            else Inl MalformedEncryptedBeaconKeyId)"
  using assms unfolding beaconTurn_def beaconAt_def
  by (rule beaconLoop_no_match)

lemma beaconLoop_73_error:
  assumes "beaconLoop c l a (slice_buffer stream 0 65) (slice_buffer stream 65 73) stream 73
             = Inl err"
  shows "(err = MalformedEncryptedBeaconKeyId \<and> (length stream - 73) mod 48 \<noteq> 0) \<or>
         (\<exists>p. err = PrimitiveThrew p \<and>
            (keyingMaterialOf c l stream = None \<or>
             (\<exists>k pubKx. a k = Some pubKx \<and> expectedHmac c l stream pubKx = None)))"
proof -
  from beaconLoop_error [OF assms]
  consider "err = MalformedEncryptedBeaconKeyId \<and> (length stream - 73) mod 48 \<noteq> 0"
    | j where "beaconTurn c l a stream j = Inl err"
    unfolding beaconTurn_def beaconAt_def by blast
  then show ?thesis
  proof cases
    case 1
    then show ?thesis by simp
  next
    case 2
    from beaconTurn_threw [OF this] show ?thesis by simp
  qed
qed

subsection \<open>A generated beacon read back by its recipient\<close>

lemma generated_beacon:
  assumes laws: "cryptoLaws c"
    and eph: "ecdhAgree c ke recipient"
    and agree: "ecdhAgree c sender recipient"
    and keyId: "length keyId = 16"
  obtains b where "generateBeacon c sender ke e keyId (publicKey recipient) = Inr b"
    and "length b = 48"
    and "\<And>addr. addr keyId = Some (publicKey sender) \<Longrightarrow>
           matchBeacon c recipient addr (publicKey ke) e b = Inr (Some keyId)"
    and "\<And>addr. addr keyId = None \<Longrightarrow>
           matchBeacon c recipient addr (publicKey ke) e b = Inr None"
proof -
  from eph obtain sey
    where sey1: "computeSecret c (privateKey ke) (publicKey recipient) = Some sey"
      and sey2: "computeSecret c (privateKey recipient) (publicKey ke) = Some sey"
    by (auto simp add: ecdhAgree_def)
  from agree obtain sxy
    where sxy1: "computeSecret c (privateKey sender) (publicKey recipient) = Some sxy"
      and sxy2: "computeSecret c (privateKey recipient) (publicKey sender) = Some sxy"
    by (auto simp add: ecdhAgree_def)
  from laws obtain km where km: "hkdf c sey e = Some km" "length km = 32"
    unfolding cryptoLaws_def by blast
  from laws obtain hkxy where hkxy: "hkdf c sxy e = Some hkxy"
    unfolding cryptoLaws_def by blast
  from laws obtain digest where digest: "hmac c hkxy e = Some digest" "length digest = 32"
    unfolding cryptoLaws_def by blast
  let ?iv = "slice_buffer km 0 16"
  let ?hkey = "slice_buffer km 16 32"
  let ?hm = "slice_buffer digest 0 16"
  from km have lens: "length ?hkey = 16" "length ?iv = 16"
    by (simp_all add: length_slice_buffer)
  with laws keyId obtain enc
    where enc: "aesEncrypt c ?hkey ?iv keyId = Some enc"
      and dec: "aesDecrypt c ?hkey ?iv enc = Some keyId"
      and enc_len: "length enc = 32"
    unfolding cryptoLaws_def by blast
  from digest have hm: "length ?hm = 16"
    by (simp add: length_slice_buffer)
  have first: "slice_buffer (enc @ ?hm) 0 32 = enc"
    using enc_len by (simp add: slice_buffer_def)
  have second: "slice_buffer (enc @ ?hm) 32 48 = ?hm"
    using enc_len hm by (simp add: slice_buffer_def)
  show ?thesis
  proof
    show "generateBeacon c sender ke e keyId (publicKey recipient) = Inr (enc @ ?hm)"
      by (simp add: generateBeacon_def Let_def sxy1 hkxy digest sey1 km enc)
    show "length (enc @ ?hm) = 48"
      using enc_len hm by simp
    show "matchBeacon c recipient addr (publicKey ke) e (enc @ ?hm) = Inr (Some keyId)"
      if "addr keyId = Some (publicKey sender)" for addr
      using that
      by (simp add: matchBeacon_def Let_def sey2 km first second dec sxy2 hkxy digest)
    show "matchBeacon c recipient addr (publicKey ke) e (enc @ ?hm) = Inr None"
      if "addr keyId = None" for addr
      using that
      by (simp add: matchBeacon_def Let_def sey2 km first dec)
  qed
qed

lemma generateBeacons_error:
  "generateBeacons c sender ke e keyId keys = Inl err \<Longrightarrow> \<exists>p. err = PrimitiveThrew p"
proof (induction keys arbitrary: err)
  case Nil
  then show ?case by simp
next
  case (Cons pubKy keys)
  show ?case
  proof (cases "generateBeacon c sender ke e keyId pubKy")
    case (Inl thrown)
    with Cons.prems have "err = thrown" by simp
    with Inl show ?thesis
      by (auto simp add: generateBeacon_def Let_def split: option.splits)
  next
    case (Inr beacon)
    with Cons.prems have "generateBeacons c sender ke e keyId keys = Inl err"
      by (simp split: sum.splits)
    then show ?thesis by (rule Cons.IH)
  qed
qed

lemma preamble_of_generated:
  assumes "length pubKe = 65" "0 \<le> t" "t \<le> ONE_DAY"
  shows "slice_buffer ((pubKe @ expirationBufferOf t) @ rest) 0 65 = pubKe"
    and "slice_buffer ((pubKe @ expirationBufferOf t) @ rest) 65 73 = expirationBufferOf t"
    and "wellFormedPreamble ((pubKe @ expirationBufferOf t) @ rest)"
    and "beaconAt ((pubKe @ expirationBufferOf t) @ rest) 0 = take 48 rest"
proof -
  let ?s = "(pubKe @ expirationBufferOf t) @ rest"
  show key: "slice_buffer ?s 0 65 = pubKe"
    using assms(1) by (simp add: slice_buffer_def)
  show exp: "slice_buffer ?s 65 73 = expirationBufferOf t"
    using assms(1) by (simp add: slice_buffer_def length_expirationBufferOf)
  from assms(3) have "t < 2 ^ 31"
    by (simp add: ONE_DAY_def)
  with assms(2) have "preambleExpiration ?s = t"
    unfolding preambleExpiration_def exp by (rule expiration_round_trip)
  with assms show "wellFormedPreamble ?s"
    by (simp add: wellFormedPreamble_def length_expirationBufferOf)
  show "beaconAt ?s 0 = take 48 rest"
    using assms(1) by (simp add: beaconAt_def slice_buffer_def length_expirationBufferOf)
qed

subsection \<open>The small instance has the assumed properties\<close>

lemma cryptoLaws_toyCrypto: "cryptoLaws toyCrypto"
  by (auto simp add: cryptoLaws_def toyCrypto_def toyEncrypt_def toyDecrypt_def toyDigest_def)

lemma ecdhAgree_toyKeyPair: "ecdhAgree toyCrypto (toyKeyPair x) (toyKeyPair y)"
  by (simp add: ecdhAgree_def toyCrypto_def toyKeyPair_def toyComputeSecret_def
      toyPublicKey_def mult.commute flip: power_mult)

lemma length_toyPublicKey: "length (publicKey (toyKeyPair x)) = 65"
  by (simp add: toyKeyPair_def toyPublicKey_def)

lemma empty_book_passes_over:
  "keyingMaterialOf c l stream \<noteq> None \<Longrightarrow> beaconPassedOver c l emptyAddressBook stream j"
  by (simp add: beaconPassedOver_def emptyAddressBook_def split: option.split)

section \<open>The claims on the beacon codec\<close>

text \<open>
  C1. Round trip. Let \<open>A\<close> and \<open>B\<close> be key pairs and \<open>ke\<close> the ephemeral key pair drawn
  by the generator, all three in Diffie-Hellman agreement as secp256k1 key pairs are, the
  ephemeral public key 65 bytes long, and the primitives as \<open>cryptoLaws\<close> describes them.
  For every expiration \<open>t\<close> from 0 to 86400, \<open>generatePreambleAndBeacons\<close> for the single
  recipient \<open>B\<close> returns a stream \<open>s\<close>, and \<open>parseBeacons\<close> run by \<open>B\<close> on \<open>s\<close> returns the
  hash of \<open>A\<close>'s public key under every address book that maps this hash to \<open>A\<close>'s public
  key, and returns null under the address book that maps every hash to null.
\<close>

theorem beacon_round_trip:
  assumes laws: "cryptoLaws c"
    and key_length: "length (publicKey ke) = 65"
    and eph: "ecdhAgree c ke B"
    and agree: "ecdhAgree c A B"
    and range: "0 \<le> t" "t \<le> 86400"
  shows "\<exists>s. generatePreambleAndBeacons c ke (Some [publicKey B]) (Some A) t = Inr (Some s) \<and>
           (\<forall>addr. addr (createPublicKeyHash c (publicKey A)) = Some (publicKey A) \<longrightarrow>
              parseBeacons c (Some s) B addr = Inr (Some (createPublicKeyHash c (publicKey A)))) \<and>
           parseBeacons c (Some s) B (\<lambda>keyId. None) = Inr None"
proof -
  let ?e = "expirationBufferOf t"
  let ?h = "createPublicKeyHash c (publicKey A)"
  from range have day: "t \<le> ONE_DAY"
    by (simp add: ONE_DAY_def)
  from laws have h: "length ?h = 16"
    by (simp add: cryptoLaws_def createPublicKeyHash_def length_slice_buffer)
  from generated_beacon [OF laws eph agree h, of ?e] obtain b
    where gen_b: "generateBeacon c A ke ?e ?h (publicKey B) = Inr b"
      and b: "length b = 48"
      and yes: "\<And>addr. addr ?h = Some (publicKey A) \<Longrightarrow>
                  matchBeacon c B addr (publicKey ke) ?e b = Inr (Some ?h)"
      and no: "\<And>addr. addr ?h = None \<Longrightarrow>
                  matchBeacon c B addr (publicKey ke) ?e b = Inr None"
    by blast
  let ?s = "(publicKey ke @ ?e) @ b"
  have len: "length ?s = 121"
    using key_length b by (simp add: length_expirationBufferOf)
  have gen: "generatePreambleAndBeacons c ke (Some [publicKey B]) (Some A) t = Inr (Some ?s)"
    using range(1) day gen_b by (simp add: generatePreambleAndBeacons_def Let_def)
  note pre = preamble_of_generated [OF key_length range(1) day, of b]
  have parse: "parseBeacons c (Some ?s) B addr =
      beaconLoop c B addr (slice_buffer ?s 0 65) (slice_buffer ?s 65 73) ?s 73" for addr
    using pre(3) by (rule parseBeacons_wellFormed)
  have turn: "beaconTurn c B addr ?s 0 =
      matchBeacon c B addr (publicKey ke) ?e b" for addr
    unfolding beaconTurn_def pre using b by simp
  have known: "parseBeacons c (Some ?s) B addr = Inr (Some ?h)"
    if book: "addr ?h = Some (publicKey A)" for addr
  proof -
    from book have "beaconTurn c B addr ?s 0 = Inr (Some ?h)"
      unfolding turn by (rule yes)
    with len show ?thesis
      unfolding parse by (intro beaconLoop_73_first_match [where j = 0]) simp_all
  qed
  have unknown: "parseBeacons c (Some ?s) B (\<lambda>keyId. None) = Inr None"
  proof -
    have none: "beaconTurn c B (\<lambda>keyId. None) ?s 0 = Inr None"
      unfolding turn by (rule no) simp
    have "beaconTurn c B (\<lambda>keyId. None) ?s j = Inr None"
      if "73 + 48 * j + 48 \<le> length ?s" for j
    proof -
      from that len have "j = 0" by simp
      with none show ?thesis by simp
    qed
    from beaconLoop_73_no_match [of ?s c B "\<lambda>keyId. None", OF this] len show ?thesis
      unfolding parse by simp
  qed
  from gen known unknown show ?thesis by blast
qed

theorem beacon_round_trip_witness:
  "\<exists>s. generatePreambleAndBeacons toyCrypto ephemeral (Some [publicKey bob]) (Some alice) 3600
          = Inr (Some s) \<and>
        parseBeacons toyCrypto (Some s) bob bobsAddressBook
          = Inr (Some (createPublicKeyHash toyCrypto (publicKey alice))) \<and>
        parseBeacons toyCrypto (Some s) bob (\<lambda>keyId. None) = Inr None"
proof -
  have book: "bobsAddressBook (createPublicKeyHash toyCrypto (publicKey alice)) =
      Some (publicKey alice)"
    by (simp add: bobsAddressBook_def)
  from beacon_round_trip [of toyCrypto ephemeral bob alice 3600,
      OF cryptoLaws_toyCrypto]
  show ?thesis
    using book
    by (auto simp add: ephemeral_def bob_def alice_def length_toyPublicKey ecdhAgree_toyKeyPair)
qed

text \<open>
  C4. The range check of \<open>generatePreambleAndBeacons\<close> compares the seconds until
  expiration with \<open>ONE_DAY\<close>, which is 86400000: with non-null arguments the
  out-of-range error is thrown exactly for a negative number of seconds and for more than
  86400000, so 86401 seconds (one second more than a day) are not refused.
\<close>

theorem generate_accepts_more_than_a_day:
  "(generatePreambleAndBeacons c ke (Some keys) (Some localDevice) t
      = Inl SecondsUntilExpirationOutOfRange \<longleftrightarrow> t < 0 \<or> 86400000 < t) \<and>
   generatePreambleAndBeacons c ke (Some keys) (Some localDevice) 86401
     \<noteq> Inl SecondsUntilExpirationOutOfRange"
proof -
  have other: "generateBeacons c localDevice ke e keyId keys
      \<noteq> Inl SecondsUntilExpirationOutOfRange" for e keyId
    using generateBeacons_error [of c localDevice ke e keyId keys] by auto
  have "generatePreambleAndBeacons c ke (Some keys) (Some localDevice) u
      = Inl SecondsUntilExpirationOutOfRange \<longleftrightarrow> u < 0 \<or> 86400000 < u" for u
    using other by (auto simp add: generatePreambleAndBeacons_def ONE_DAY_def Let_def
        split: sum.splits)
  from this [of t] this [of 86401] show ?thesis
    by simp
qed

text \<open>
  C5, as the code has it. A stream shorter than 73 bytes is refused with a preamble
  error, and so is a longer one whose expiration is out of range. A stream with a
  well-formed preamble whose length minus 73 is not a multiple of 48 never yields null:
  it is refused with the malformed-beacon error when every complete 48-byte block is
  passed over (its decryption fails, the address book has no key for it, or its HMAC
  differs), and when a block is accepted (its decryption succeeds, the address book has
  a key for it and its HMAC matches) after blocks that are all passed over,
  \<open>parseBeacons\<close> returns the key id of that block and does not reach the truncated
  one. A stream of exactly 73 bytes with an expiration within range yields null.
\<close>

theorem parseBeacons_length_checks:
  "(length stream < 65 \<longrightarrow>
      parseBeacons c (Some stream) l a = Inl PreamblePublicKeyNotSecp256k1) \<and>
   (65 \<le> length stream \<and> length stream < 73 \<longrightarrow>
      parseBeacons c (Some stream) l a = Inl PreambleExpirationNot64Bit) \<and>
   (73 \<le> length stream \<and> \<not> wellFormedPreamble stream \<longrightarrow>
      parseBeacons c (Some stream) l a = Inl ExpirationOutOfRange) \<and>
   (wellFormedPreamble stream \<and> (length stream - 73) mod 48 \<noteq> 0 \<longrightarrow>
      parseBeacons c (Some stream) l a \<noteq> Inr None \<and>
      ((\<forall>j. 73 + 48 * j + 48 \<le> length stream \<longrightarrow> beaconPassedOver c l a stream j) \<longrightarrow>
         parseBeacons c (Some stream) l a = Inl MalformedEncryptedBeaconKeyId) \<and>
      (\<forall>j k. 73 + 48 * j + 48 \<le> length stream \<and> beaconAccepted c l a stream j k \<and>
             (\<forall>j'. j' < j \<longrightarrow> beaconPassedOver c l a stream j') \<longrightarrow>
             parseBeacons c (Some stream) l a = Inr (Some k))) \<and>
   (wellFormedPreamble stream \<and> length stream = 73 \<longrightarrow>
      parseBeacons c (Some stream) l a = Inr None)"
proof (intro conjI impI allI)
  assume "length stream < 65"
  then show "parseBeacons c (Some stream) l a = Inl PreamblePublicKeyNotSecp256k1"
    by (rule parseBeacons_short_key)
next
  assume "65 \<le> length stream \<and> length stream < 73"
  then show "parseBeacons c (Some stream) l a = Inl PreambleExpirationNot64Bit"
    by (simp add: parseBeacons_short_expiration)
next
  assume "73 \<le> length stream \<and> \<not> wellFormedPreamble stream"
  then show "parseBeacons c (Some stream) l a = Inl ExpirationOutOfRange"
    by (simp add: parseBeacons_out_of_range)
next
  assume wf: "wellFormedPreamble stream \<and> (length stream - 73) mod 48 \<noteq> 0"
  then have long: "73 \<le> length stream"
    by (simp add: wellFormedPreamble_def)
  show "parseBeacons c (Some stream) l a \<noteq> Inr None"
  proof
    assume "parseBeacons c (Some stream) l a = Inr None"
    with wf have "beaconLoop c l a (slice_buffer stream 0 65) (slice_buffer stream 65 73)
        stream 73 = Inr None"
      by (simp add: parseBeacons_wellFormed)
    from beaconLoop_null_aligned [OF this long] wf show False
      by simp
  qed
next
  assume wf: "wellFormedPreamble stream \<and> (length stream - 73) mod 48 \<noteq> 0"
    and none: "\<forall>j. 73 + 48 * j + 48 \<le> length stream \<longrightarrow> beaconPassedOver c l a stream j"
  from none have "beaconLoop c l a (slice_buffer stream 0 65) (slice_buffer stream 65 73)
      stream 73 = (if (length stream - 73) mod 48 = 0 then Inr None
                   else Inl MalformedEncryptedBeaconKeyId)"
    by (intro beaconLoop_73_no_match) (simp add: beaconTurn_passedOver)
  with wf show "parseBeacons c (Some stream) l a = Inl MalformedEncryptedBeaconKeyId"
    by (simp add: parseBeacons_wellFormed)
next
  fix j k
  assume wf: "wellFormedPreamble stream \<and> (length stream - 73) mod 48 \<noteq> 0"
    and h: "73 + 48 * j + 48 \<le> length stream \<and> beaconAccepted c l a stream j k \<and>
      (\<forall>j'. j' < j \<longrightarrow> beaconPassedOver c l a stream j')"
  from h have "beaconLoop c l a (slice_buffer stream 0 65) (slice_buffer stream 65 73) stream 73
      = Inr (Some k)"
    by (intro beaconLoop_73_first_match [where j = j])
      (simp_all add: beaconTurn_accepted beaconTurn_passedOver)
  with wf show "parseBeacons c (Some stream) l a = Inr (Some k)"
    by (simp add: parseBeacons_wellFormed)
next
  assume "wellFormedPreamble stream \<and> length stream = 73"
  then show "parseBeacons c (Some stream) l a = Inr None"
    by (simp add: parseBeacons_wellFormed beaconLoop_end)
qed

theorem parseBeacons_length_checks_witness:
  "parseBeacons toyCrypto (Some []) bob bobsAddressBook = Inl PreamblePublicKeyNotSecp256k1 \<and>
   parseBeacons toyCrypto (Some (replicate 70 0)) bob bobsAddressBook
     = Inl PreambleExpirationNot64Bit \<and>
   parseBeacons toyCrypto (Some (replicate 74 255)) bob bobsAddressBook
     = Inl ExpirationOutOfRange \<and>
   wellFormedPreamble (streamForBob @ [0]) \<and>
   length (streamForBob @ [0]) = 73 + 48 + 1 \<and>
   parseBeacons toyCrypto (Some (streamForBob @ [0])) bob emptyAddressBook
     = Inl MalformedEncryptedBeaconKeyId \<and>
   beaconAccepted toyCrypto bob bobsAddressBook (streamForBob @ [0]) 0
     (createPublicKeyHash toyCrypto (publicKey alice)) \<and>
   parseBeacons toyCrypto (Some (streamForBob @ [0])) bob bobsAddressBook
     = Inr (Some (createPublicKeyHash toyCrypto (publicKey alice))) \<and>
   parseBeacons toyCrypto (Some (replicate 73 0)) bob bobsAddressBook = Inr None"
proof -
  let ?s = "streamForBob @ [0]"
  let ?h = "createPublicKeyHash toyCrypto (publicKey alice)"
  have wf: "wellFormedPreamble ?s"
    by code_simp
  have len: "length ?s = 73 + 48 + 1"
    by code_simp
  then have odd: "(length ?s - 73) mod 48 \<noteq> 0"
    by simp
  have "keyingMaterialOf toyCrypto bob ?s \<noteq> None"
    by code_simp
  then have none: "beaconPassedOver toyCrypto bob emptyAddressBook ?s j" for j
    by (rule empty_book_passes_over)
  have accepted: "beaconAccepted toyCrypto bob bobsAddressBook ?s 0 ?h"
    by code_simp
  have wf0: "wellFormedPreamble (replicate 73 0)"
    by code_simp
  have bad: "\<not> wellFormedPreamble (replicate 74 255)"
    by code_simp
  have one: "parseBeacons toyCrypto (Some []) bob bobsAddressBook
      = Inl PreamblePublicKeyNotSecp256k1"
    using parseBeacons_length_checks [of "[]" toyCrypto bob bobsAddressBook] by simp
  have two: "parseBeacons toyCrypto (Some (replicate 70 0)) bob bobsAddressBook
      = Inl PreambleExpirationNot64Bit"
    using parseBeacons_length_checks [of "replicate 70 0" toyCrypto bob bobsAddressBook] by simp
  have three: "parseBeacons toyCrypto (Some (replicate 74 255)) bob bobsAddressBook
      = Inl ExpirationOutOfRange"
    using parseBeacons_length_checks [of "replicate 74 255" toyCrypto bob bobsAddressBook] bad
    by simp
  have four: "parseBeacons toyCrypto (Some ?s) bob emptyAddressBook
      = Inl MalformedEncryptedBeaconKeyId"
    using parseBeacons_length_checks [of ?s toyCrypto bob emptyAddressBook] wf odd none
    by blast
  have "73 + 48 * 0 + 48 \<le> length ?s \<and> beaconAccepted toyCrypto bob bobsAddressBook ?s 0 ?h \<and>
      (\<forall>j'. j' < (0 :: nat) \<longrightarrow> beaconPassedOver toyCrypto bob bobsAddressBook ?s j')"
    using len accepted by simp
  with parseBeacons_length_checks [of ?s toyCrypto bob bobsAddressBook] wf odd
  have five: "parseBeacons toyCrypto (Some ?s) bob bobsAddressBook = Inr (Some ?h)"
    by blast
  have six: "parseBeacons toyCrypto (Some (replicate 73 0)) bob bobsAddressBook = Inr None"
    using parseBeacons_length_checks [of "replicate 73 0" toyCrypto bob bobsAddressBook] wf0
    by simp
  from one two three wf len four accepted five six show ?thesis
    by blast
qed

text \<open>
  C5 as stated fails twice. The 122-byte stream made of Alice's stream for Bob and one
  more byte has a length that is not 73 plus a multiple of 48, and \<open>parseBeacons\<close>
  returns Alice's key hash from its first block instead of throwing. And a stream of
  exactly 73 bytes is refused when its expiration is out of range (here all bytes are
  255, the expiration -1).
\<close>

theorem parseBeacons_truncated_tail_counterexample:
  "(length (streamForBob @ [0]) - 73) mod 48 = 1 \<and>
   parseBeacons toyCrypto (Some (streamForBob @ [0])) bob bobsAddressBook
     = Inr (Some (createPublicKeyHash toyCrypto (publicKey alice))) \<and>
   length (replicate 73 (255 :: byte)) = 73 \<and>
   parseBeacons toyCrypto (Some (replicate 73 255)) bob bobsAddressBook = Inl ExpirationOutOfRange"
  by code_simp

text \<open>
  C6, as the code has it. On a stream with a well-formed preamble, \<open>parseBeacons\<close>
  returns the key id of the first 48-byte block, in stream order from offset 73, that
  is accepted (its decryption succeeds, the address book has a public key for the
  decrypted key id, and the HMAC computed for that public key equals the last 16 bytes
  of the block), whatever follows that block, when every block before it is passed over
  (its decryption fails, or the address book has no public key for it, or the HMAC
  differs); when every block is passed over and the blocks fill the stream, the result
  is null. An error reaches the caller in three cases only: a preamble error, when the
  preamble is not well formed; the malformed-beacon error of the loop, when the
  preamble is well formed and the length of the stream is not 73 plus a multiple of 48;
  and the exception of \<open>computeSecret\<close>, \<open>HKDF\<close> or \<open>createHmac\<close>, which the loop calls
  outside its \<open>try\<close>, when one of them throws on the preamble key or on a public key that
  the address book holds.
\<close>

theorem parseBeacons_first_match_wins:
  "(\<forall>j k. wellFormedPreamble stream \<and> 73 + 48 * j + 48 \<le> length stream \<and>
          beaconAccepted c l a stream j k \<and>
          (\<forall>j'. j' < j \<longrightarrow> beaconPassedOver c l a stream j') \<longrightarrow>
          parseBeacons c (Some stream) l a = Inr (Some k)) \<and>
   (wellFormedPreamble stream \<and> (length stream - 73) mod 48 = 0 \<and>
      (\<forall>j. 73 + 48 * j + 48 \<le> length stream \<longrightarrow> beaconPassedOver c l a stream j) \<longrightarrow>
      parseBeacons c (Some stream) l a = Inr None) \<and>
   (\<forall>e. parseBeacons c (Some stream) l a = Inl e \<longrightarrow>
      (\<not> wellFormedPreamble stream \<and>
         (e = PreamblePublicKeyNotSecp256k1 \<or> e = PreambleExpirationNot64Bit \<or>
          e = ExpirationOutOfRange)) \<or>
      (wellFormedPreamble stream \<and> e = MalformedEncryptedBeaconKeyId \<and>
         (length stream - 73) mod 48 \<noteq> 0) \<or>
      (wellFormedPreamble stream \<and> (\<exists>p. e = PrimitiveThrew p) \<and>
         (keyingMaterialOf c l stream = None \<or>
          (\<exists>k pubKx. a k = Some pubKx \<and> expectedHmac c l stream pubKx = None))))"
proof (intro conjI allI impI)
  fix j k
  assume h: "wellFormedPreamble stream \<and> 73 + 48 * j + 48 \<le> length stream \<and>
      beaconAccepted c l a stream j k \<and>
      (\<forall>j'. j' < j \<longrightarrow> beaconPassedOver c l a stream j')"
  then have "beaconLoop c l a (slice_buffer stream 0 65) (slice_buffer stream 65 73) stream 73
      = Inr (Some k)"
    by (intro beaconLoop_73_first_match [where j = j])
      (simp_all add: beaconTurn_accepted beaconTurn_passedOver)
  with h show "parseBeacons c (Some stream) l a = Inr (Some k)"
    by (simp add: parseBeacons_wellFormed)
next
  assume h: "wellFormedPreamble stream \<and> (length stream - 73) mod 48 = 0 \<and>
      (\<forall>j. 73 + 48 * j + 48 \<le> length stream \<longrightarrow> beaconPassedOver c l a stream j)"
  then have "beaconLoop c l a (slice_buffer stream 0 65) (slice_buffer stream 65 73) stream 73
      = (if (length stream - 73) mod 48 = 0 then Inr None
         else Inl MalformedEncryptedBeaconKeyId)"
    by (intro beaconLoop_73_no_match) (simp add: beaconTurn_passedOver)
  with h show "parseBeacons c (Some stream) l a = Inr None"
    by (simp add: parseBeacons_wellFormed)
next
  fix e
  assume thrown: "parseBeacons c (Some stream) l a = Inl e"
  show "(\<not> wellFormedPreamble stream \<and>
         (e = PreamblePublicKeyNotSecp256k1 \<or> e = PreambleExpirationNot64Bit \<or>
          e = ExpirationOutOfRange)) \<or>
      (wellFormedPreamble stream \<and> e = MalformedEncryptedBeaconKeyId \<and>
         (length stream - 73) mod 48 \<noteq> 0) \<or>
      (wellFormedPreamble stream \<and> (\<exists>p. e = PrimitiveThrew p) \<and>
         (keyingMaterialOf c l stream = None \<or>
          (\<exists>k pubKx. a k = Some pubKx \<and> expectedHmac c l stream pubKx = None)))"
  proof (cases "wellFormedPreamble stream")
    case True
    with thrown have "beaconLoop c l a (slice_buffer stream 0 65) (slice_buffer stream 65 73)
        stream 73 = Inl e"
      by (simp add: parseBeacons_wellFormed)
    from beaconLoop_73_error [OF this] True show ?thesis
      by blast
  next
    case False
    consider "length stream < 65" | "65 \<le> length stream" "length stream < 73"
      | "73 \<le> length stream"
      by linarith
    then show ?thesis
    proof cases
      case 1
      with thrown False show ?thesis by (simp add: parseBeacons_short_key)
    next
      case 2
      with thrown False show ?thesis by (simp add: parseBeacons_short_expiration)
    next
      case 3
      with thrown False show ?thesis by (simp add: parseBeacons_out_of_range)
    qed
  qed
qed

theorem parseBeacons_first_match_wins_witness:
  "wellFormedPreamble streamForCarolAndBob \<and>
   length streamForCarolAndBob = 73 + 48 * 1 + 48 \<and>
   beaconPassedOver toyCrypto bob bobsAddressBook streamForCarolAndBob 0 \<and>
   beaconAccepted toyCrypto bob bobsAddressBook streamForCarolAndBob 1
     (createPublicKeyHash toyCrypto (publicKey alice)) \<and>
   parseBeacons toyCrypto (Some streamForCarolAndBob) bob bobsAddressBook
     = Inr (Some (createPublicKeyHash toyCrypto (publicKey alice))) \<and>
   parseBeacons toyCrypto (Some streamForCarolAndBob) bob emptyAddressBook = Inr None \<and>
   parseBeacons toyCrypto (Some (streamForBob @ [0])) bob emptyAddressBook
     = Inl MalformedEncryptedBeaconKeyId \<and>
   (length (streamForBob @ [0]) - 73) mod 48 = 1 \<and>
   decryptedKeyId toyCrypto bob tamperedStreamForBob 0
     = Some (createPublicKeyHash toyCrypto (publicKey alice)) \<and>
   bobsAddressBook (createPublicKeyHash toyCrypto (publicKey alice)) = Some (publicKey alice) \<and>
   beaconPassedOver toyCrypto bob bobsAddressBook tamperedStreamForBob 0 \<and>
   parseBeacons toyCrypto (Some tamperedStreamForBob) bob bobsAddressBook = Inr None"
proof -
  let ?s = streamForCarolAndBob
  let ?h = "createPublicKeyHash toyCrypto (publicKey alice)"
  have wf: "wellFormedPreamble ?s"
    by code_simp
  have len: "length ?s = 73 + 48 * 1 + 48"
    by code_simp
  have first: "beaconPassedOver toyCrypto bob bobsAddressBook ?s 0"
    by code_simp
  have second: "beaconAccepted toyCrypto bob bobsAddressBook ?s 1 ?h"
    by code_simp
  have before: "\<forall>j'. j' < 1 \<longrightarrow> beaconPassedOver toyCrypto bob bobsAddressBook ?s j'"
    using first by simp
  have "keyingMaterialOf toyCrypto bob ?s \<noteq> None"
    by code_simp
  then have none: "beaconPassedOver toyCrypto bob emptyAddressBook ?s j" for j
    by (rule empty_book_passes_over)
  have thrown: "parseBeacons toyCrypto (Some (streamForBob @ [0])) bob emptyAddressBook
      = Inl MalformedEncryptedBeaconKeyId"
    by code_simp
  have matched: "parseBeacons toyCrypto (Some ?s) bob bobsAddressBook = Inr (Some ?h)"
    using parseBeacons_first_match_wins [of ?s toyCrypto bob bobsAddressBook]
      wf len second before
    by (metis le_refl)
  have passed: "parseBeacons toyCrypto (Some ?s) bob emptyAddressBook = Inr None"
    using parseBeacons_first_match_wins [of ?s toyCrypto bob emptyAddressBook]
      wf len none
    by simp
  from parseBeacons_first_match_wins [of "streamForBob @ [0]" toyCrypto bob emptyAddressBook]
    thrown
  have odd: "(length (streamForBob @ [0]) - 73) mod 48 \<noteq> 0"
    by auto
  have tail: "(length (streamForBob @ [0]) - 73) mod 48 = 1"
    by code_simp
  have wf': "wellFormedPreamble tamperedStreamForBob"
    by code_simp
  have len': "length tamperedStreamForBob = 73 + 48"
    by code_simp
  have decrypted: "decryptedKeyId toyCrypto bob tamperedStreamForBob 0 = Some ?h"
    by code_simp
  have book: "bobsAddressBook ?h = Some (publicKey alice)"
    by (simp add: bobsAddressBook_def)
  have differs: "beaconPassedOver toyCrypto bob bobsAddressBook tamperedStreamForBob 0"
    by code_simp
  have "beaconPassedOver toyCrypto bob bobsAddressBook tamperedStreamForBob j"
    if "73 + 48 * j + 48 \<le> length tamperedStreamForBob" for j
  proof -
    from that len' have "j = 0" by simp
    with differs show ?thesis by simp
  qed
  with parseBeacons_first_match_wins [of tamperedStreamForBob toyCrypto bob bobsAddressBook]
    wf' len'
  have tampered: "parseBeacons toyCrypto (Some tamperedStreamForBob) bob bobsAddressBook
      = Inr None"
    by simp
  from wf len first second matched passed thrown tail decrypted book differs tampered
  show ?thesis
    by blast
qed

text \<open>
  C6 as stated fails: \<open>parseBeacons\<close> throws errors that are not preamble errors. On
  Alice's stream for Bob followed by one more byte, whose preamble is well formed, Bob's
  loop (with an empty address book) passes over the first block and throws the
  malformed-beacon error at the one-byte block. And on 121 zero bytes, whose preamble
  passes the three checks, \<open>computeSecret\<close> throws on the preamble key inside the loop,
  outside the \<open>try\<close>.
\<close>

theorem parseBeacons_loop_errors_counterexample:
  "wellFormedPreamble (streamForBob @ [0]) \<and>
   parseBeacons toyCrypto (Some (streamForBob @ [0])) bob emptyAddressBook
     = Inl MalformedEncryptedBeaconKeyId \<and>
   wellFormedPreamble (replicate 121 0) \<and>
   parseBeacons toyCrypto (Some (replicate 121 0)) bob bobsAddressBook
     = Inl (PrimitiveThrew ComputeSecret)"
  by code_simp

text \<open>
  C7, as the code has it. For an empty list of keys, a non-null key pair and an
  expiration within the checked range (0 to \<open>ONE_DAY\<close>, so every expiration from 0 to
  86400 seconds), \<open>generatePreambleAndBeacons\<close> throws nothing and returns null.
\<close>

theorem generate_empty_list_returns_null:
  "0 \<le> t \<Longrightarrow> t \<le> ONE_DAY \<Longrightarrow>
   generatePreambleAndBeacons c ke (Some []) (Some localDevice) t = Inr None"
  by (simp add: generatePreambleAndBeacons_def)

theorem generate_empty_list_returns_null_witness:
  "(0 :: int) \<le> 3600 \<and> 3600 \<le> ONE_DAY \<and>
   generatePreambleAndBeacons toyCrypto ephemeral (Some []) (Some alice) 3600 = Inr None"
  using generate_empty_list_returns_null [of 3600 toyCrypto ephemeral alice]
  by (simp add: ONE_DAY_def)

text \<open>
  C7 as stated fails: for the empty list the result is not an empty beacon stream (a
  Buffer of length 0) but null.
\<close>

theorem generate_empty_list_counterexample:
  "generatePreambleAndBeacons toyCrypto ephemeral (Some []) (Some alice) 3600 \<noteq> Inr (Some [])"
  by (simp add: generatePreambleAndBeacons_def ONE_DAY_def)

text \<open>
  C9. \<open>parseBeacons\<close> called with a null beacon stream returns null and throws nothing,
  whatever the key pair and the address book are.
\<close>

theorem parseBeacons_null_stream:
  "parseBeacons c None ecdhForLocalDevice addressBookCallback = Inr None"
  by (simp add: parseBeacons_def)


section \<open>The claims on the manager\<close>

lemma thaliIdValidator_iff:
  "thaliIdValidator m thaliId conn \<longleftrightarrow>
     (\<exists>pk. getPskIdToPublicKey m (pskIdentity conn) = Some pk \<and> thaliId = bufferToString m pk)"
  by (simp add: thaliIdValidator_def split: option.split)

lemma alice_key_and_hash_are_ascii:
  "list_all (\<lambda>b. b < 128) (publicKey alice @ createPublicKeyHash toyCrypto (publicKey alice))"
  by code_simp

text \<open>
  C2. The callback of the gate compares the id of the path with the caller's public key
  itself, not with its hash. On the small manager, Alice (role replication) asks for
  the local sequence point whose id is the hash of her public key: the callback refuses
  the id and the gate answers 403; the same request with her public key as the id is
  admitted.
\<close>

theorem local_seq_point_id_compared_with_key:
  "\<not> thaliIdValidator toyManager (asciiString (createPublicKeyHash toyCrypto (publicKey alice)))
        (aliceConnection\<lparr>pskRole := Some Replication\<rparr>) \<and>
   saltiGate toyManager aliceLocalSeqRequest (aliceConnection\<lparr>pskRole := Some Replication\<rparr>)
     = (Respond 403, aliceConnection\<lparr>pskRole := Some Replication\<rparr>) \<and>
   saltiGate toyManager
       (aliceLocalSeqRequest\<lparr>req_path := ''/db/data/_local/thali_'' @ asciiString (publicKey alice)\<rparr>)
       (aliceConnection\<lparr>pskRole := Some Replication\<rparr>)
     = (Next, aliceConnection\<lparr>pskRole := Some Replication\<rparr>)"
  by code_simp

text \<open>
  C3. On a connection that is not authorized the role assignment sets the status 401,
  assigns no role and does not call \<open>next()\<close>, but it sends no response: it throws a
  \<open>ReferenceError\<close> on \<open>msg401\<close> before \<open>send\<close> is called. On an authorized connection
  it calls \<open>next()\<close> with the role beacon when the secret of the PSK identity is
  \<open>BEACON_KEY\<close>, with the role replication when the identity has another secret, and
  with the role public when it has none.
\<close>

theorem assignPskRole_by_secret:
  "(\<not> authorized conn \<longrightarrow> assignPskRole m req conn = (ReferenceErrorAfterStatus 401, conn)) \<and>
   (authorized conn \<and> getPskIdToSecret m (pskIdentity conn) = Some (BEACON_KEY (config m)) \<longrightarrow>
      assignPskRole m req conn = (Next, conn\<lparr>pskRole := Some Beacon\<rparr>)) \<and>
   (authorized conn \<and>
      (\<exists>secret. getPskIdToSecret m (pskIdentity conn) = Some secret \<and>
                secret \<noteq> BEACON_KEY (config m)) \<longrightarrow>
      assignPskRole m req conn = (Next, conn\<lparr>pskRole := Some Replication\<rparr>)) \<and>
   (authorized conn \<and> getPskIdToSecret m (pskIdentity conn) = None \<longrightarrow>
      assignPskRole m req conn = (Next, conn\<lparr>pskRole := Some Public\<rparr>))"
  by (auto simp add: assignPskRole_def Let_def)

theorem assignPskRole_by_secret_witness:
  "assignPskRole toyManager aliceLocalSeqRequest (aliceConnection\<lparr>authorized := False\<rparr>)
     = (ReferenceErrorAfterStatus 401, aliceConnection\<lparr>authorized := False\<rparr>) \<and>
   assignPskRole toyManager aliceLocalSeqRequest (aliceConnection\<lparr>pskIdentity := ''beacons''\<rparr>)
     = (Next, aliceConnection\<lparr>pskIdentity := ''beacons'', pskRole := Some Beacon\<rparr>) \<and>
   assignPskRole toyManager aliceLocalSeqRequest aliceConnection
     = (Next, aliceConnection\<lparr>pskRole := Some Replication\<rparr>) \<and>
   assignPskRole toyManager aliceLocalSeqRequest (aliceConnection\<lparr>pskIdentity := ''mallory''\<rparr>)
     = (Next, aliceConnection\<lparr>pskIdentity := ''mallory'', pskRole := Some Public\<rparr>)"
proof -
  have closed: "\<not> authorized (aliceConnection\<lparr>authorized := False\<rparr>)"
    by simp
  have "open": "authorized aliceConnection"
    by (simp add: aliceConnection_def)
  have beacon: "getPskIdToSecret toyManager (pskIdentity (aliceConnection\<lparr>pskIdentity := ''beacons''\<rparr>))
      = Some (BEACON_KEY (config toyManager))"
    by (simp add: toyManager_def toyConfig_def)
  have other: "getPskIdToSecret toyManager (pskIdentity aliceConnection) = Some (BufferRef 1)"
    "BufferRef 1 \<noteq> BEACON_KEY (config toyManager)"
    by code_simp+
  have nobody: "getPskIdToSecret toyManager (pskIdentity (aliceConnection\<lparr>pskIdentity := ''mallory''\<rparr>))
      = None"
    by (simp add: toyManager_def)
  from assignPskRole_by_secret [where m = toyManager and req = aliceLocalSeqRequest
      and conn = "aliceConnection\<lparr>authorized := False\<rparr>"] closed
  have one: "assignPskRole toyManager aliceLocalSeqRequest (aliceConnection\<lparr>authorized := False\<rparr>)
      = (ReferenceErrorAfterStatus 401, aliceConnection\<lparr>authorized := False\<rparr>)"
    by blast
  from assignPskRole_by_secret [where m = toyManager and req = aliceLocalSeqRequest
      and conn = "aliceConnection\<lparr>pskIdentity := ''beacons''\<rparr>"] "open" beacon
  have two: "assignPskRole toyManager aliceLocalSeqRequest (aliceConnection\<lparr>pskIdentity := ''beacons''\<rparr>)
      = (Next, aliceConnection\<lparr>pskIdentity := ''beacons'', pskRole := Some Beacon\<rparr>)"
    by simp
  from assignPskRole_by_secret [where m = toyManager and req = aliceLocalSeqRequest
      and conn = aliceConnection] "open" other
  have three: "assignPskRole toyManager aliceLocalSeqRequest aliceConnection
      = (Next, aliceConnection\<lparr>pskRole := Some Replication\<rparr>)"
    by blast
  from assignPskRole_by_secret [where m = toyManager and req = aliceLocalSeqRequest
      and conn = "aliceConnection\<lparr>pskIdentity := ''mallory''\<rparr>"] "open" nobody
  have four: "assignPskRole toyManager aliceLocalSeqRequest (aliceConnection\<lparr>pskIdentity := ''mallory''\<rparr>)
      = (Next, aliceConnection\<lparr>pskIdentity := ''mallory'', pskRole := Some Public\<rparr>)"
    by simp
  from one two three four show ?thesis
    by blast
qed

text \<open>
  C10. A request runs through the layers of the manager's router in the order role
  assignment, ACL gate, notification routes, database router, and stops at the first
  that responds. Every layer after the role assignment finds the connection authorized
  and finds in \<open>pskRole\<close> the one role that the role assignment has just stored there
  (the connection is otherwise as it arrived). On a connection that is not authorized
  the request ends in the role assignment, with the status 401 set and the
  \<open>ReferenceError\<close> thrown, and reaches no other layer.
\<close>

theorem later_layers_find_a_role:
  "(case dispatch (ThaliManager_router m notificationRoutes expressPouchDB) req conn of
      (visited, result, conn') \<Rightarrow>
        (\<forall>(s, c) \<in> set visited. s \<noteq> RoleAssignment \<longrightarrow>
            authorized c \<and> pskRole c \<in> {Some Beacon, Some Replication, Some Public} \<and>
            c = conn\<lparr>pskRole := pskRole c\<rparr>) \<and>
        (\<not> authorized conn \<longrightarrow>
            visited = [(RoleAssignment, conn)] \<and> result = ReferenceErrorAfterStatus 401 \<and>
            conn' = conn) \<and>
        (map fst visited = [RoleAssignment] \<or>
         map fst visited = [RoleAssignment, AclGate] \<or>
         map fst visited = [RoleAssignment, AclGate, NotificationRoutes] \<or>
         map fst visited = [RoleAssignment, AclGate, NotificationRoutes, DatabaseRouter]))"
proof (cases "authorized conn")
  case False
  then show ?thesis
    by (simp add: ThaliManager_router_def mountedEverywhere_def assignPskRole_def)
next
  case True
  define r where "r = (if getPskIdToSecret m (pskIdentity conn) = Some (BEACON_KEY (config m))
      then Beacon
      else if getPskIdToSecret m (pskIdentity conn) \<noteq> None then Replication else Public)"
  define c where "c = conn\<lparr>pskRole := Some r\<rparr>"
  define db :: layer where "db = (DatabaseRouter, mountedUnder (BASE_DB_PATH (config m)),
      \<lambda>req conn. (expressPouchDB req conn, conn))"
  define routes :: layer where "routes = (NotificationRoutes, mountedEverywhere,
      \<lambda>req conn. (notificationRoutes req conn, conn))"
  from True have assigned: "assignPskRole m req conn = (Next, c)"
    by (simp add: assignPskRole_def Let_def r_def c_def)
  have c: "authorized c" "pskRole c \<in> {Some Beacon, Some Replication, Some Public}"
    "c = conn\<lparr>pskRole := pskRole c\<rparr>"
    using True by (cases r; simp add: c_def)+
  have "\<exists>out. dispatch [db] req c = ([], out, c) \<or>
      dispatch [db] req c = ([(DatabaseRouter, c)], out, c)"
    unfolding db_def by (cases "expressPouchDB req c") auto
  then obtain v3 out3 where d3: "dispatch [db] req c = (v3, out3, c)"
    and v3: "v3 = [] \<or> v3 = [(DatabaseRouter, c)]"
    by blast
  have "\<exists>v out. dispatch [routes, db] req c = (v, out, c) \<and>
      (v = [(NotificationRoutes, c)] \<or> v = [(NotificationRoutes, c), (DatabaseRouter, c)])"
    using d3 v3 unfolding routes_def
    by (cases "notificationRoutes req c") (auto simp add: mountedEverywhere_def)
  then obtain v2 out2 where d2: "dispatch [routes, db] req c = (v2, out2, c)"
    and v2: "v2 = [(NotificationRoutes, c)] \<or> v2 = [(NotificationRoutes, c), (DatabaseRouter, c)]"
    by blast
  have gate: "saltiGate m req c = (Next, c) \<or> saltiGate m req c = (Respond 403, c)"
    by (cases "pskRole c") (simp_all add: saltiGate_def Let_def)
  have "\<exists>v out. dispatch [(AclGate, mountedEverywhere, saltiGate m), routes, db] req c
        = (v, out, c) \<and>
      (v = [(AclGate, c)] \<or> v = (AclGate, c) # v2)"
    using gate d2 by (auto simp add: mountedEverywhere_def)
  then obtain v1 out1
    where d1: "dispatch [(AclGate, mountedEverywhere, saltiGate m), routes, db] req c
      = (v1, out1, c)"
    and v1: "v1 = [(AclGate, c)] \<or> v1 = (AclGate, c) # v2"
    by blast
  have whole: "dispatch (ThaliManager_router m notificationRoutes expressPouchDB) req conn
      = ((RoleAssignment, conn) # v1, out1, c)"
    using assigned d1
    by (simp add: ThaliManager_router_def mountedEverywhere_def routes_def db_def)
  from v1 v2 c True show ?thesis
    unfolding whole by auto
qed

theorem later_layers_find_a_role_witness:
  "dispatch (ThaliManager_router toyManager (\<lambda>req conn. Next) (\<lambda>req conn. Respond 200))
     \<lparr>req_method = GET, req_path = ''/db/data/_all_docs''\<rparr> aliceConnection
   = ([(RoleAssignment, aliceConnection),
       (AclGate, aliceConnection\<lparr>pskRole := Some Replication\<rparr>),
       (NotificationRoutes, aliceConnection\<lparr>pskRole := Some Replication\<rparr>),
       (DatabaseRouter, aliceConnection\<lparr>pskRole := Some Replication\<rparr>)],
      Respond 200, aliceConnection\<lparr>pskRole := Some Replication\<rparr>) \<and>
   dispatch (ThaliManager_router toyManager (\<lambda>req conn. Next) (\<lambda>req conn. Respond 200))
     \<lparr>req_method = GET, req_path = ''/db/data/_all_docs''\<rparr>
     (aliceConnection\<lparr>authorized := False\<rparr>)
   = ([(RoleAssignment, aliceConnection\<lparr>authorized := False\<rparr>)],
      ReferenceErrorAfterStatus 401, aliceConnection\<lparr>authorized := False\<rparr>)"
proof -
  have run: "dispatch (ThaliManager_router toyManager (\<lambda>req conn. Next) (\<lambda>req conn. Respond 200))
       \<lparr>req_method = GET, req_path = ''/db/data/_all_docs''\<rparr> aliceConnection
     = ([(RoleAssignment, aliceConnection),
         (AclGate, aliceConnection\<lparr>pskRole := Some Replication\<rparr>),
         (NotificationRoutes, aliceConnection\<lparr>pskRole := Some Replication\<rparr>),
         (DatabaseRouter, aliceConnection\<lparr>pskRole := Some Replication\<rparr>)],
        Respond 200, aliceConnection\<lparr>pskRole := Some Replication\<rparr>)"
    by code_simp
  have unauthorized: "\<not> authorized (aliceConnection\<lparr>authorized := False\<rparr>)"
    by simp
  from later_layers_find_a_role [where m = toyManager and notificationRoutes = "\<lambda>req conn. Next"
      and expressPouchDB = "\<lambda>req conn. Respond 200"
      and req = "\<lparr>req_method = GET, req_path = ''/db/data/_all_docs''\<rparr>"
      and conn = "aliceConnection\<lparr>authorized := False\<rparr>"] unauthorized run
  show ?thesis
    by (auto split: prod.splits)
qed


section \<open>The claim on the peer registry\<close>





end
